theory Spec2Isabelle
  imports Complex_Main
begin

section \<open>Text helpers shared by both programs\<close>

text \<open>
  Strings are lists of 8-bit characters. The two programs only ever compare text against
  ASCII literals, so a character stands for the UTF-16 code unit with the same number.
\<close>

definition endsWith :: "string \<Rightarrow> string \<Rightarrow> bool" where
  "endsWith s suf \<longleftrightarrow> length suf \<le> length s \<and> drop (length s - length suf) s = suf"

definition startsWith :: "string \<Rightarrow> string \<Rightarrow> bool" where
  "startsWith s pre \<longleftrightarrow> take (length pre) s = pre"

fun contains :: "string \<Rightarrow> string \<Rightarrow> bool" where
  "contains [] sub = (sub = [])"
| "contains (c # cs) sub = (startsWith (c # cs) sub \<or> contains cs sub)"

definition digit_char :: "nat \<Rightarrow> char" where
  "digit_char d = char_of (48 + d)"

function string_of_nat :: "nat \<Rightarrow> string" where
  "string_of_nat n =
     (if n < 10 then [digit_char n] else string_of_nat (n div 10) @ [digit_char (n mod 10)])"
  by pat_completeness auto
termination
  by (relation "measure id") auto

declare string_of_nat.simps [simp del]

definition string_of_int :: "int \<Rightarrow> string" where
  "string_of_int i = (if i < 0 then CHR ''-'' # string_of_nat (nat (- i)) else string_of_nat (nat i))"

section \<open>JSON values and \<open>JSON.parse\<close>\<close>

text \<open>
  The orchestrator hands the child's standard output to \<open>JSON.parse\<close> and casts the
  result. A JavaScript string is a sequence of UTF-16 code units, so string values and
  object keys are lists of code-unit numbers; a number is kept as its exact decimal value.
  An object keeps its members in source order, and a property read takes the last member
  of that name, as the engine does for duplicate keys.
\<close>

type_synonym jsstring = "nat list"

datatype json =
    JNull
  | JBool bool
  | JNumber rat
  | JString jsstring
  | JArray "json list"
  | JObject "(jsstring \<times> json) list"

definition js_string :: "string \<Rightarrow> jsstring" where
  "js_string s = map of_char s"

definition is_ws :: "char \<Rightarrow> bool" where
  "is_ws c \<longleftrightarrow> c = CHR '' '' \<or> c = CHR 0x09 \<or> c = CHR 0x0A \<or> c = CHR 0x0D"

definition skip_ws :: "string \<Rightarrow> string" where
  "skip_ws s = dropWhile is_ws s"

definition is_digit :: "char \<Rightarrow> bool" where
  "is_digit c \<longleftrightarrow> 48 \<le> (of_char c :: nat) \<and> (of_char c :: nat) \<le> 57"

definition digit_val :: "char \<Rightarrow> nat" where
  "digit_val c = of_char c - 48"

definition nat_of_digits :: "string \<Rightarrow> nat" where
  "nat_of_digits ds = foldl (\<lambda>a c. 10 * a + digit_val c) 0 ds"

definition hex_val :: "char \<Rightarrow> nat option" where
  "hex_val c =
     (let n = (of_char c :: nat) in
      if 48 \<le> n \<and> n \<le> 57 then Some (n - 48)
      else if 65 \<le> n \<and> n \<le> 70 then Some (n - 55)
      else if 97 \<le> n \<and> n \<le> 102 then Some (n - 87)
      else None)"

definition hex4 :: "char \<Rightarrow> char \<Rightarrow> char \<Rightarrow> char \<Rightarrow> nat option" where
  "hex4 a b c d =
     (case (hex_val a, hex_val b, hex_val c, hex_val d) of
        (Some w, Some x, Some y, Some z) \<Rightarrow> Some (4096 * w + 256 * x + 16 * y + z)
      | _ \<Rightarrow> None)"

definition unescape :: "char \<Rightarrow> nat option" where
  "unescape e =
     (if e = CHR 0x22 then Some 0x22
      else if e = CHR 0x5C then Some 0x5C
      else if e = CHR ''/'' then Some 0x2F
      else if e = CHR ''b'' then Some 0x08
      else if e = CHR ''f'' then Some 0x0C
      else if e = CHR ''n'' then Some 0x0A
      else if e = CHR ''r'' then Some 0x0D
      else if e = CHR ''t'' then Some 0x09
      else None)"

definition consP :: "'a \<Rightarrow> ('a list \<times> string) option \<Rightarrow> ('a list \<times> string) option" where
  "consP x r = (case r of None \<Rightarrow> None | Some (xs, rest) \<Rightarrow> Some (x # xs, rest))"

text \<open>The characters of a string literal, read after its opening quote.\<close>

fun parse_chars :: "string \<Rightarrow> (jsstring \<times> string) option"
  and parse_escape :: "string \<Rightarrow> (jsstring \<times> string) option"
  and parse_unicode :: "string \<Rightarrow> (jsstring \<times> string) option"
where
  "parse_chars [] = None"
| "parse_chars (c # cs) =
     (if c = CHR 0x22 then Some ([], cs)
      else if c = CHR 0x5C then parse_escape cs
      else if (of_char c :: nat) < 0x20 then None
      else consP (of_char c) (parse_chars cs))"
| "parse_escape [] = None"
| "parse_escape (e # cs) =
     (if e = CHR ''u'' then parse_unicode cs
      else case unescape e of None \<Rightarrow> None | Some u \<Rightarrow> consP u (parse_chars cs))"
| "parse_unicode (a # b # c # d # cs) =
     (case hex4 a b c d of None \<Rightarrow> None | Some u \<Rightarrow> consP u (parse_chars cs))"
| "parse_unicode _ = None"

text \<open>A number: optional minus, integer part without leading zeros, fraction, exponent.\<close>

definition parse_sign :: "string \<Rightarrow> bool \<times> string" where
  "parse_sign s =
     (case s of [] \<Rightarrow> (False, s) | c # cs \<Rightarrow> if c = CHR ''-'' then (True, cs) else (False, s))"

definition parse_int_part :: "string \<Rightarrow> (nat \<times> string) option" where
  "parse_int_part s =
     (case s of
        [] \<Rightarrow> None
      | c # cs \<Rightarrow>
          if c = CHR ''0'' then Some (0, cs)
          else if is_digit c
            then Some (nat_of_digits (c # takeWhile is_digit cs), dropWhile is_digit cs)
          else None)"

definition parse_frac :: "string \<Rightarrow> (rat \<times> string) option" where
  "parse_frac s =
     (case s of
        [] \<Rightarrow> Some (0, s)
      | c # cs \<Rightarrow>
          if c = CHR ''.''
          then (let ds = takeWhile is_digit cs in
                if ds = [] then None
                else Some (of_nat (nat_of_digits ds) / 10 ^ length ds, dropWhile is_digit cs))
          else Some (0, s))"

definition parse_exp_sign :: "string \<Rightarrow> bool \<times> string" where
  "parse_exp_sign s =
     (case s of
        [] \<Rightarrow> (False, s)
      | c # cs \<Rightarrow>
          if c = CHR ''-'' then (True, cs) else if c = CHR ''+'' then (False, cs) else (False, s))"

definition parse_exp :: "string \<Rightarrow> (int \<times> string) option" where
  "parse_exp s =
     (case s of
        [] \<Rightarrow> Some (0, s)
      | c # cs \<Rightarrow>
          if c = CHR ''e'' \<or> c = CHR ''E''
          then (case parse_exp_sign cs of
                  (neg, cs') \<Rightarrow>
                    (let ds = takeWhile is_digit cs' in
                     if ds = [] then None
                     else Some (if neg then - int (nat_of_digits ds) else int (nat_of_digits ds),
                                dropWhile is_digit cs')))
          else Some (0, s))"

definition scale10 :: "int \<Rightarrow> rat" where
  "scale10 e = (if 0 \<le> e then 10 ^ nat e else 1 / 10 ^ nat (- e))"

definition parse_number :: "string \<Rightarrow> (rat \<times> string) option" where
  "parse_number s =
     (case parse_sign s of
        (neg, s1) \<Rightarrow>
          (case parse_int_part s1 of
             None \<Rightarrow> None
           | Some (i, s2) \<Rightarrow>
               (case parse_frac s2 of
                  None \<Rightarrow> None
                | Some (f, s3) \<Rightarrow>
                    (case parse_exp s3 of
                       None \<Rightarrow> None
                     | Some (e, s4) \<Rightarrow>
                         Some ((if neg then - 1 else 1) * (of_nat i + f) * scale10 e, s4)))))"

text \<open>
  Values, array elements and object members. The first argument bounds the number of
  nested calls; \<open>JSON_parse\<close> starts with the length of the text, and every call
  consumes at least one character before it recurses.
\<close>

fun parse_value :: "nat \<Rightarrow> string \<Rightarrow> (json \<times> string) option"
  and parse_elements :: "nat \<Rightarrow> string \<Rightarrow> (json list \<times> string) option"
  and parse_members :: "nat \<Rightarrow> string \<Rightarrow> ((jsstring \<times> json) list \<times> string) option"
where
  "parse_value 0 s = None"
| "parse_value (Suc n) [] = None"
| "parse_value (Suc n) (c # cs) =
     (if c = CHR ''{'' then
        (case skip_ws cs of
           [] \<Rightarrow> None
         | d # ds \<Rightarrow>
             if d = CHR ''}'' then Some (JObject [], ds)
             else (case parse_members n (d # ds) of
                     None \<Rightarrow> None
                   | Some (ms, r) \<Rightarrow> Some (JObject ms, r)))
      else if c = CHR ''['' then
        (case skip_ws cs of
           [] \<Rightarrow> None
         | d # ds \<Rightarrow>
             if d = CHR '']'' then Some (JArray [], ds)
             else (case parse_elements n (d # ds) of
                     None \<Rightarrow> None
                   | Some (vs, r) \<Rightarrow> Some (JArray vs, r)))
      else if c = CHR 0x22 then
        (case parse_chars cs of None \<Rightarrow> None | Some (str, r) \<Rightarrow> Some (JString str, r))
      else if startsWith (c # cs) ''null'' then Some (JNull, drop 4 (c # cs))
      else if startsWith (c # cs) ''true'' then Some (JBool True, drop 4 (c # cs))
      else if startsWith (c # cs) ''false'' then Some (JBool False, drop 5 (c # cs))
      else (case parse_number (c # cs) of None \<Rightarrow> None | Some (q, r) \<Rightarrow> Some (JNumber q, r)))"
| "parse_elements 0 s = None"
| "parse_elements (Suc n) s =
     (case parse_value n s of
        None \<Rightarrow> None
      | Some (v, r) \<Rightarrow>
          (case skip_ws r of
             [] \<Rightarrow> None
           | d # ds \<Rightarrow>
               if d = CHR '','' then consP v (parse_elements n (skip_ws ds))
               else if d = CHR '']'' then Some ([v], ds)
               else None))"
| "parse_members 0 s = None"
| "parse_members (Suc n) [] = None"
| "parse_members (Suc n) (q # cs) =
     (if q \<noteq> CHR 0x22 then None
      else case parse_chars cs of
        None \<Rightarrow> None
      | Some (k, r) \<Rightarrow>
          (case skip_ws r of
             [] \<Rightarrow> None
           | col # r1 \<Rightarrow>
               if col \<noteq> CHR '':'' then None
               else (case parse_value n (skip_ws r1) of
                       None \<Rightarrow> None
                     | Some (v, r2) \<Rightarrow>
                         (case skip_ws r2 of
                            [] \<Rightarrow> None
                          | d # ds \<Rightarrow>
                              if d = CHR '','' then consP (k, v) (parse_members n (skip_ws ds))
                              else if d = CHR ''}'' then Some ([(k, v)], ds)
                              else None))))"

definition JSON_parse :: "string \<Rightarrow> json option" where
  "JSON_parse s =
     (case parse_value (length s) (skip_ws s) of
        None \<Rightarrow> None
      | Some (v, r) \<Rightarrow> if skip_ws r = [] then Some v else None)"

section \<open>The orchestrator: \<open>src/roslynAnalyzer.ts\<close>\<close>

text \<open>
  What the outside world answers during one call is collected in \<open>env\<close>: the
  directory of the analyzer project, the clock, whether \<open>fs.writeFile\<close> rejects,
  whether the first, the second, ... \<open>fs.unlink\<close> of the call rejects, how the child
  process ends, which of two handlers waiting for their unlink goes on first, and the
  text with which the engine describes a rejected JSON document. The file system and
  the trace of the effects the call attempts are the state \<open>sys\<close>.
\<close>

text \<open>
  How the child ends. Either it ran and \<open>close\<close> fires with its exit code and what it
  wrote to standard output and standard error; or it could not be started, and then
  \<open>error\<close> fires with a message and \<open>close\<close> fires after it, with the negative error
  number as its code and nothing read from the streams.
\<close>

datatype proc_outcome =
    SpawnFailure string int
  | Exited "int option" string string

record env =
  analyzerPath :: string
  now :: nat
  writeFile_error :: "string option"
  outcome :: proc_outcome
  unlink_fails :: "nat \<Rightarrow> bool"
  close_settles_first :: bool
  syntax_error_text :: "string \<Rightarrow> string"

datatype effect =
    WriteFile string string
  | Spawn string "string list"
  | Unlink string

record sys =
  files :: "string \<rightharpoonup> string"
  effects :: "effect list"

text \<open>One constructor for each place where \<open>analyzeCode\<close> throws or rejects.\<close>

datatype analyze_error =
    NotBuilt
  | WriteFailed string
  | ParseFailed string
  | ExitFailed "int option" string
  | SpawnFailed string

definition js_code_text :: "int option \<Rightarrow> string" where
  "js_code_text c = (case c of None \<Rightarrow> ''null'' | Some i \<Rightarrow> string_of_int i)"

fun error_message :: "analyze_error \<Rightarrow> string" where
  "error_message NotBuilt =
     ''Roslyn analyzer not built. Run 'dotnet build' in roslyn-analyzer directory.''"
| "error_message (WriteFailed m) = m"
| "error_message (ParseFailed e) = ''Failed to parse analysis result: '' @ e"
| "error_message (ExitFailed c errorOutput) =
     ''Analysis failed (exit code '' @ js_code_text c @ ''):'' @ [CHR 0x0A] @ errorOutput"
| "error_message (SpawnFailed m) = ''Failed to run analyzer: '' @ m"

definition dllPath :: "env \<Rightarrow> string" where
  "dllPath e = analyzerPath e @ ''/bin/Debug/net8.0/CSharpAnalyzer.dll''"

definition isRoslynAvailable :: "env \<Rightarrow> sys \<Rightarrow> bool" where
  "isRoslynAvailable e s \<longleftrightarrow> files s (dllPath e) \<noteq> None"

definition tempFilePath :: "env \<Rightarrow> string" where
  "tempFilePath e = analyzerPath e @ ''/temp_'' @ string_of_nat (now e) @ ''.cs''"

text \<open>\<open>fileName && fileName.endsWith(".cs")\<close>: an absent or empty name is falsy.\<close>

definition isFilePath :: "string option \<Rightarrow> bool" where
  "isFilePath fileName =
     (case fileName of None \<Rightarrow> False | Some f \<Rightarrow> f \<noteq> [] \<and> endsWith f ''.cs'')"

definition record_effect :: "effect \<Rightarrow> sys \<Rightarrow> sys" where
  "record_effect x s = s\<lparr>effects := effects s @ [x]\<rparr>"

text \<open>
  The cleanup both handlers start with: \<open>if (tempFile) { try { await
  fs.unlink(tempFile) } catch { } }\<close>. A rejected unlink changes nothing and is ignored;
  so is the unlink of a file that is already gone.
\<close>

definition cleanup :: "env \<Rightarrow> nat \<Rightarrow> string option \<Rightarrow> sys \<Rightarrow> sys" where
  "cleanup e attempt tempFile s =
     (case tempFile of
        None \<Rightarrow> s
      | Some t \<Rightarrow>
          record_effect (Unlink t)
            (if unlink_fails e attempt then s else s\<lparr>files := (files s)(t := None)\<rparr>))"

text \<open>The handler of \<open>close\<close>: cleanup, then the result by the exit code.\<close>

definition onClose :: "env \<Rightarrow> nat \<Rightarrow> string option \<Rightarrow> int option \<Rightarrow> string \<Rightarrow> string \<Rightarrow> sys \<Rightarrow>
    (analyze_error + json) \<times> sys" where
  "onClose e attempt tempFile code output errorOutput s =
     (let s' = cleanup e attempt tempFile s in
      if code = Some 0 then
        (case JSON_parse output of
           Some result \<Rightarrow> (Inr result, s')
         | None \<Rightarrow> (Inl (ParseFailed (syntax_error_text e output)), s'))
      else (Inl (ExitFailed code errorOutput), s'))"

text \<open>The handler of \<open>error\<close>: cleanup, then the rejection.\<close>

definition onError :: "env \<Rightarrow> nat \<Rightarrow> string option \<Rightarrow> string \<Rightarrow> sys \<Rightarrow>
    (analyze_error + json) \<times> sys" where
  "onError e attempt tempFile m s = (Inl (SpawnFailed m), cleanup e attempt tempFile s)"

text \<open>
  The promise around the child process. When the child ran, only \<open>close\<close> fires. When
  the spawn failed, \<open>error\<close> fires and then \<open>close\<close>, so both handlers run and each
  attempts its own unlink. The first rejection settles the promise and the other is
  ignored. With no staged file the handler of \<open>error\<close> rejects as soon as it is
  entered, before \<open>close\<close> fires. With a staged file each handler waits for its unlink
  before it rejects, and the environment says whose unlink returns first.
\<close>

definition runAnalyzer :: "env \<Rightarrow> string option \<Rightarrow> string \<Rightarrow> sys \<Rightarrow> (analyze_error + json) \<times> sys" where
  "runAnalyzer e tempFile codeInput s =
     (let s1 = record_effect (Spawn ''dotnet'' [dllPath e, codeInput]) s in
      case outcome e of
        Exited code output errorOutput \<Rightarrow> onClose e 0 tempFile code output errorOutput s1
      | SpawnFailure m code \<Rightarrow>
          (case onError e 0 tempFile m s1 of
             (byError, s2) \<Rightarrow>
               (case onClose e 1 tempFile (Some code) [] [] s2 of
                  (byClose, s3) \<Rightarrow>
                    (if tempFile \<noteq> None \<and> close_settles_first e then byClose else byError,
                     s3))))"


text \<open>
  \<open>analyzeCode(code, fileName)\<close>. A rejected \<open>fs.writeFile\<close> propagates out of
  the function; it is taken to leave the file system as it was.
\<close>

definition analyzeCode :: "env \<Rightarrow> sys \<Rightarrow> string \<Rightarrow> string option \<Rightarrow> (analyze_error + json) \<times> sys" where
  "analyzeCode e s code fileName =
     (if \<not> isRoslynAvailable e s then (Inl NotBuilt, s)
      else if isFilePath fileName then runAnalyzer e None (the fileName) s
      else
        (let tempFile = tempFilePath e;
             s1 = record_effect (WriteFile tempFile code) s
         in case writeFile_error e of
              Some m \<Rightarrow> (Inl (WriteFailed m), s1)
            | None \<Rightarrow>
                runAnalyzer e (Some tempFile) tempFile
                  (s1\<lparr>files := (files s1)(tempFile \<mapsto> code)\<rparr>)))"

text \<open>Sample environments for the concrete checks below.\<close>

definition env_ok :: env where
  "env_ok = \<lparr> analyzerPath = ''/srv/roslyn-analyzer'', now = 17, writeFile_error = None,
              outcome = Exited (Some 0) ''null'' [], unlink_fails = (\<lambda>_. False),
              close_settles_first = False,
              syntax_error_text = (\<lambda>_. ''SyntaxError: Unexpected end of JSON input'') \<rparr>"

definition sys_empty :: sys where
  "sys_empty = \<lparr> files = Map.empty, effects = [] \<rparr>"

definition sys_built :: sys where
  "sys_built = \<lparr> files = [dllPath env_ok \<mapsto> ''MZ''], effects = [] \<rparr>"


definition env_bad_output :: env where
  "env_bad_output = env_ok \<lparr> outcome := Exited (Some 0) ''['' [] \<rparr>"


definition env_empty_object :: env where
  "env_empty_object = env_ok \<lparr> outcome := Exited (Some 0) ''{}'' [] \<rparr>"



section \<open>The analyzer: class \<open>Program\<close> of namespace \<open>CSharpAnalyzer\<close>\<close>

subsection \<open>Strings of the .NET runtime\<close>

text \<open>
  All comparisons are by code unit, and \<open>ToLower\<close> is that of the invariant culture on
  the characters the rules look for: the letters \<open>A\<close> to \<open>Z\<close>.
\<close>

definition ToLower_char :: "char \<Rightarrow> char" where
  "ToLower_char c =
     (if 65 \<le> (of_char c :: nat) \<and> (of_char c :: nat) \<le> 90
      then char_of ((of_char c :: nat) + 32) else c)"

definition ToLower :: "string \<Rightarrow> string" where
  "ToLower s = map ToLower_char s"

definition IsWhiteSpace :: "char \<Rightarrow> bool" where
  "IsWhiteSpace c \<longleftrightarrow>
     (9 \<le> (of_char c :: nat) \<and> (of_char c :: nat) \<le> 13) \<or> c = CHR '' '' \<or>
     c = CHR 0x85 \<or> c = CHR 0xA0"

definition IsNullOrWhiteSpace :: "string \<Rightarrow> bool" where
  "IsNullOrWhiteSpace s = list_all IsWhiteSpace s"

text \<open>\<open>s.Split(sep)\<close> for one separator character: never empty.\<close>

fun Split :: "char \<Rightarrow> string \<Rightarrow> string list" where
  "Split sep [] = [[]]"
| "Split sep (c # cs) =
     (if c = sep then [] # Split sep cs
      else case Split sep cs of [] \<Rightarrow> [[c]] | piece # pieces \<Rightarrow> (c # piece) # pieces)"

text \<open>
  \<open>s.Split(separators, StringSplitOptions.None).Length - 1\<close>: the number of separators
  found from left to right, each match skipped before the search goes on.
\<close>

function count_separators :: "string list \<Rightarrow> string \<Rightarrow> nat" where
  "count_separators seps [] = 0"
| "count_separators seps (c # cs) =
     (case find (\<lambda>sep. sep \<noteq> [] \<and> startsWith (c # cs) sep) seps of
        None \<Rightarrow> count_separators seps cs
      | Some sep \<Rightarrow> Suc (count_separators seps (drop (length sep) (c # cs))))"
  by pat_completeness auto
termination
  by (relation "measure (\<lambda>(seps, s). length s)") (auto simp: find_Some_iff)

subsection \<open>The syntax tree, as the analyzer reads it\<close>

text \<open>
  The tree comes from Roslyn. A node is given by what the analyzer asks of it: its syntax
  class (with the kind, where the code tests \<open>IsKind\<close>), the text \<open>ToString()\<close> returns,
  the text of its identifier token, its modifier keywords, the kinds of its leading
  trivia, and its child nodes in document order.
\<close>

datatype BinaryKind =
    LogicalAndExpression
  | LogicalOrExpression
  | AddExpression
  | OtherBinaryExpression

datatype LiteralKind =
    StringLiteralExpression
  | OtherLiteralExpression

datatype SyntaxClass =
    ClassDeclarationSyntax
  | MethodDeclarationSyntax
  | OtherMemberDeclarationSyntax
  | IfStatementSyntax
  | WhileStatementSyntax
  | ForStatementSyntax
  | ForEachStatementSyntax
  | CaseSwitchLabelSyntax
  | CatchClauseSyntax
  | CatchDeclarationSyntax
  | BlockSyntax
  | ConditionalExpressionSyntax
  | BinaryExpressionSyntax BinaryKind
  | LiteralExpressionSyntax LiteralKind
  | AssignmentExpressionSyntax
  | VariableDeclaratorSyntax
  | EqualsValueClauseSyntax
  | ThrowStatementSyntax
  | InvocationExpressionSyntax
  | ObjectCreationExpressionSyntax
  | AwaitExpressionSyntax
  | QueryExpressionSyntax
  | OtherSyntax

datatype Modifier =
    PublicKeyword
  | AsyncKeyword
  | OtherKeyword

datatype Trivia =
    SingleLineDocumentationCommentTrivia
  | MultiLineDocumentationCommentTrivia
  | OtherTrivia

datatype SyntaxNode =
  SyntaxNode (Class: SyntaxClass) (ToString: string) (Identifier: string)
    (Modifiers: "Modifier list") (LeadingTrivia: "Trivia list") (ChildNodes: "SyntaxNode list")

fun DescendantNodesAndSelf :: "SyntaxNode \<Rightarrow> SyntaxNode list" where
  "DescendantNodesAndSelf (SyntaxNode k t i m l cs) =
     SyntaxNode k t i m l cs # concat (map DescendantNodesAndSelf cs)"

definition DescendantNodes :: "SyntaxNode \<Rightarrow> SyntaxNode list" where
  "DescendantNodes root' = concat (map DescendantNodesAndSelf (ChildNodes root'))"

text \<open>The same traversal, each node paired with its \<open>Parent\<close>.\<close>

fun WithParent :: "SyntaxNode \<Rightarrow> SyntaxNode \<Rightarrow> (SyntaxNode \<times> SyntaxNode) list" where
  "WithParent p (SyntaxNode k t i m l cs) =
     (p, SyntaxNode k t i m l cs) # concat (map (WithParent (SyntaxNode k t i m l cs)) cs)"

definition DescendantNodesWithParent :: "SyntaxNode \<Rightarrow> (SyntaxNode \<times> SyntaxNode) list" where
  "DescendantNodesWithParent root' = concat (map (WithParent root') (ChildNodes root'))"

definition OfType :: "SyntaxClass \<Rightarrow> SyntaxNode list \<Rightarrow> SyntaxNode list" where
  "OfType k ns = filter (\<lambda>n. Class n = k) ns"

definition isBinaryExpression :: "SyntaxNode \<Rightarrow> bool" where
  "isBinaryExpression n = (case Class n of BinaryExpressionSyntax k \<Rightarrow> True | _ \<Rightarrow> False)"

definition isLiteralExpression :: "SyntaxNode \<Rightarrow> bool" where
  "isLiteralExpression n = (case Class n of LiteralExpressionSyntax k \<Rightarrow> True | _ \<Rightarrow> False)"

definition isMemberDeclaration :: "SyntaxNode \<Rightarrow> bool" where
  "isMemberDeclaration n \<longleftrightarrow>
     Class n = ClassDeclarationSyntax \<or> Class n = MethodDeclarationSyntax \<or>
     Class n = OtherMemberDeclarationSyntax"

text \<open>
  Child accessors. Roslyn never returns null for \<open>Left\<close>, \<open>Right\<close>, \<open>Expression\<close> and
  \<open>Type\<close>; a tree without the child is read as one whose child has the empty text.
\<close>

definition ChildText :: "nat \<Rightarrow> SyntaxNode \<Rightarrow> string" where
  "ChildText i n = (if i < length (ChildNodes n) then ToString (ChildNodes n ! i) else [])"

definition Left :: "SyntaxNode \<Rightarrow> string" where
  "Left n = ChildText 0 n"

definition Right :: "SyntaxNode \<Rightarrow> string" where
  "Right n = ChildText 1 n"

definition Expression :: "SyntaxNode \<Rightarrow> string" where
  "Expression n = ChildText 0 n"

definition Type :: "SyntaxNode \<Rightarrow> string" where
  "Type n = ChildText 0 n"

definition Members :: "SyntaxNode \<Rightarrow> SyntaxNode list" where
  "Members cls = filter isMemberDeclaration (ChildNodes cls)"

definition Declaration :: "SyntaxNode \<Rightarrow> SyntaxNode option" where
  "Declaration catchClause = find (\<lambda>c. Class c = CatchDeclarationSyntax) (ChildNodes catchClause)"

definition Block :: "SyntaxNode \<Rightarrow> SyntaxNode option" where
  "Block catchClause = find (\<lambda>c. Class c = BlockSyntax) (ChildNodes catchClause)"

definition Initializer :: "SyntaxNode \<Rightarrow> SyntaxNode option" where
  "Initializer variable = find (\<lambda>c. Class c = EqualsValueClauseSyntax) (ChildNodes variable)"

definition Value :: "SyntaxNode \<Rightarrow> SyntaxNode option" where
  "Value clause = (case ChildNodes clause of [] \<Rightarrow> None | v # _ \<Rightarrow> Some v)"

subsection \<open>The result classes\<close>

record LocationInfo =
  Line :: int
  Column :: int
  File :: string

record DiagnosticResult =
  Id :: string
  Severity :: string
  Message :: string
  Location :: "LocationInfo option"
  Category :: string

record CodeMetrics =
  Classes :: int
  Methods :: int
  Lines :: int
  CyclomaticComplexity :: int

record AnalysisResult =
  Diagnostics :: "DiagnosticResult list"
  Metrics :: CodeMetrics
  Suggestions :: "string list"

text \<open>A compiler diagnostic, by the properties \<open>AnalyzeCode\<close> reads.\<close>

datatype DiagnosticSeverity =
    Hidden
  | Info
  | Warning
  | Error

record Diagnostic =
  diag_Id :: string
  diag_Severity :: DiagnosticSeverity
  diag_Message :: string
  diag_Category :: string
  StartLine :: int
  StartCharacter :: int
  Path :: string

fun Severity_ToString :: "DiagnosticSeverity \<Rightarrow> string" where
  "Severity_ToString Hidden = ''Hidden''"
| "Severity_ToString Info = ''Info''"
| "Severity_ToString Warning = ''Warning''"
| "Severity_ToString Error = ''Error''"

subsection \<open>Metrics\<close>

text \<open>
  \<open>Count()\<close> and the sums of counts are C# \<open>int\<close>s. They count nodes of a tree parsed
  from one string, each with a token of its own, so they stay far below \<open>2^31\<close>: the
  integers are unbounded here.
\<close>

definition Count :: "'a list \<Rightarrow> int" where
  "Count xs = int (length xs)"

definition isLogicalAndOr :: "SyntaxNode \<Rightarrow> bool" where
  "isLogicalAndOr n \<longleftrightarrow>
     Class n = BinaryExpressionSyntax LogicalAndExpression \<or>
     Class n = BinaryExpressionSyntax LogicalOrExpression"

definition CalculateCyclomaticComplexity :: "SyntaxNode \<Rightarrow> int" where
  "CalculateCyclomaticComplexity root' =
     1 + Count (OfType IfStatementSyntax (DescendantNodes root'))
       + Count (OfType WhileStatementSyntax (DescendantNodes root'))
       + Count (OfType ForStatementSyntax (DescendantNodes root'))
       + Count (OfType ForEachStatementSyntax (DescendantNodes root'))
       + Count (OfType CaseSwitchLabelSyntax (DescendantNodes root'))
       + Count (OfType CatchClauseSyntax (DescendantNodes root'))
       + Count (OfType ConditionalExpressionSyntax (DescendantNodes root'))
       + Count (filter isLogicalAndOr (filter isBinaryExpression (DescendantNodes root')))"

definition CalculateMetrics :: "SyntaxNode \<Rightarrow> CodeMetrics" where
  "CalculateMetrics root' =
     \<lparr> Classes = Count (OfType ClassDeclarationSyntax (DescendantNodes root')),
       Methods = Count (OfType MethodDeclarationSyntax (DescendantNodes root')),
       Lines = Count (filter (\<lambda>line. \<not> IsNullOrWhiteSpace line) (Split (CHR 0x0A) (ToString root'))),
       CyclomaticComplexity = CalculateCyclomaticComplexity root' \<rparr>"

subsection \<open>Loops over nodes\<close>

text \<open>
  \<open>foreach (x in xs) if (P x) { suggestions.Add(msg x); break; }\<close> and the same loop
  without the \<open>break\<close>.
\<close>

fun first_match :: "('a \<Rightarrow> bool) \<Rightarrow> ('a \<Rightarrow> string) \<Rightarrow> 'a list \<Rightarrow> string list" where
  "first_match P msg [] = []"
| "first_match P msg (x # xs) = (if P x then [msg x] else first_match P msg xs)"

fun each_match :: "('a \<Rightarrow> bool) \<Rightarrow> ('a \<Rightarrow> string) \<Rightarrow> 'a list \<Rightarrow> string list" where
  "each_match P msg [] = []"
| "each_match P msg (x # xs) = (if P x then msg x # each_match P msg xs else each_match P msg xs)"

definition quoted :: "string \<Rightarrow> string" where
  "quoted s = [CHR 0x27] @ s @ [CHR 0x27]"

subsection \<open>\<open>GenerateSuggestions\<close>\<close>

definition hasModifier :: "Modifier \<Rightarrow> SyntaxNode \<Rightarrow> bool" where
  "hasModifier k m = list_ex (\<lambda>modifier. modifier = k) (Modifiers m)"

definition HasDocumentationComment :: "SyntaxNode \<Rightarrow> bool" where
  "HasDocumentationComment node =
     list_ex (\<lambda>t. t = SingleLineDocumentationCommentTrivia \<or>
                   t = MultiLineDocumentationCommentTrivia) (LeadingTrivia node)"

definition lineCount :: "SyntaxNode \<Rightarrow> int" where
  "lineCount method = Count (Split (CHR 0x0A) (ToString method))"

definition GenerateSuggestions :: "SyntaxNode \<Rightarrow> Diagnostic list \<Rightarrow> string list" where
  "GenerateSuggestions root' diagnostics =
     (let methods = OfType MethodDeclarationSyntax (DescendantNodes root');
          publicMethods = filter (hasModifier PublicKeyword)
                            (OfType MethodDeclarationSyntax (DescendantNodes root'));
          asyncMethods = filter (hasModifier AsyncKeyword)
                           (OfType MethodDeclarationSyntax (DescendantNodes root'));
          classes = OfType ClassDeclarationSyntax (DescendantNodes root')
      in
        each_match (\<lambda>method. lineCount method > 50)
          (\<lambda>method. ''Method '' @ quoted (Identifier method) @ '' is '' @
             string_of_int (lineCount method) @
             '' lines long. Consider breaking it into smaller methods.'') methods
      @ each_match (\<lambda>method. \<not> HasDocumentationComment method)
          (\<lambda>method. ''Public method '' @ quoted (Identifier method) @
             '' is missing XML documentation.'') publicMethods
      @ each_match (\<lambda>method. \<not> endsWith (Identifier method) ''Async'')
          (\<lambda>method. ''Async method '' @ quoted (Identifier method) @
             '' should have 'Async' suffix.'') asyncMethods
      @ each_match (\<lambda>cls. Count (Members cls) > 20)
          (\<lambda>cls. ''Class '' @ quoted (Identifier cls) @ '' has '' @
             string_of_int (Count (Members cls)) @
             '' members. Consider splitting into smaller classes.'') classes
      @ each_match (\<lambda>method. CalculateCyclomaticComplexity method > 10)
          (\<lambda>method. ''Method '' @ quoted (Identifier method) @
             '' has high cyclomatic complexity ('' @
             string_of_int (CalculateCyclomaticComplexity method) @
             ''). Consider refactoring.'') methods)"

subsection \<open>\<open>GenerateSecuritySuggestions\<close>\<close>

definition isAddExpression :: "SyntaxNode \<Rightarrow> bool" where
  "isAddExpression b \<longleftrightarrow> Class b = BinaryExpressionSyntax AddExpression"

definition looksLikeSql :: "SyntaxNode \<Rightarrow> bool" where
  "looksLikeSql concat' =
     (let text = ToLower (ToString concat') in
      contains text ''select'' \<or> contains text ''insert'' \<or> contains text ''update'' \<or>
      contains text ''delete'')"

definition sql_injection_suggestions :: "SyntaxNode \<Rightarrow> string list" where
  "sql_injection_suggestions root' =
     first_match looksLikeSql
       (\<lambda>_. ''SECURITY: Potential SQL injection risk detected. Use parameterized queries instead of string concatenation.'')
       (filter isAddExpression (filter isBinaryExpression (DescendantNodes root')))"

text \<open>
  The scan for hardcoded secrets: the loop over all literal expressions, each with its
  parent. The assignment branch adds one message and leaves the loop; the declarator
  branch adds a message and goes on.
\<close>

definition sensitiveLeftSide :: "SyntaxNode \<Rightarrow> bool" where
  "sensitiveLeftSide assignment =
     (let leftSide = ToLower (Left assignment) in
      contains leftSide ''password'' \<or> contains leftSide ''secret'' \<or>
      contains leftSide ''apikey'' \<or> contains leftSide ''connectionstring'')"

definition sensitiveVarName :: "SyntaxNode \<Rightarrow> bool" where
  "sensitiveVarName declarator =
     (let varName = ToLower (Identifier declarator) in
      contains varName ''password'' \<or> contains varName ''secret'' \<or>
      contains varName ''apikey'')"

definition assignment_message :: string where
  "assignment_message =
     ''SECURITY: Hardcoded sensitive data detected. Use secure configuration instead.''"

definition declarator_message :: "SyntaxNode \<Rightarrow> string" where
  "declarator_message declarator =
     ''SECURITY: Hardcoded sensitive data in variable '' @ quoted (Identifier declarator) @
     ''. Use secure configuration.''"

fun secret_scan :: "(SyntaxNode \<times> SyntaxNode) list \<Rightarrow> string list" where
  "secret_scan [] = []"
| "secret_scan ((parent, literal) # rest) =
     (if Class literal = LiteralExpressionSyntax StringLiteralExpression then
        (if Class parent = AssignmentExpressionSyntax then
           (if sensitiveLeftSide parent then [assignment_message] else secret_scan rest)
         else if Class parent = VariableDeclaratorSyntax then
           (if sensitiveVarName parent then declarator_message parent # secret_scan rest
            else secret_scan rest)
         else secret_scan rest)
      else secret_scan rest)"

definition literals_with_parent :: "SyntaxNode \<Rightarrow> (SyntaxNode \<times> SyntaxNode) list" where
  "literals_with_parent root' =
     filter (\<lambda>(parent, n). isLiteralExpression n) (DescendantNodesWithParent root')"

definition hardcoded_secret_suggestions :: "SyntaxNode \<Rightarrow> string list" where
  "hardcoded_secret_suggestions root' = secret_scan (literals_with_parent root')"

definition catchesException :: "SyntaxNode \<Rightarrow> bool" where
  "catchesException catchClause =
     (case Declaration catchClause of None \<Rightarrow> False | Some d \<Rightarrow> Type d = ''Exception'')"

definition hasThrow :: "SyntaxNode \<Rightarrow> bool" where
  "hasThrow catchClause =
     (case Block catchClause of
        None \<Rightarrow> False
      | Some b \<Rightarrow> OfType ThrowStatementSyntax (DescendantNodes b) \<noteq> [])"

definition hasLogging :: "SyntaxNode \<Rightarrow> bool" where
  "hasLogging catchClause =
     (case Block catchClause of
        None \<Rightarrow> False
      | Some b \<Rightarrow> contains (ToLower (ToString b)) ''log'')"

definition swallowed_exception_suggestions :: "SyntaxNode \<Rightarrow> string list" where
  "swallowed_exception_suggestions root' =
     each_match (\<lambda>c. catchesException c \<and> \<not> hasThrow c \<and> \<not> hasLogging c)
       (\<lambda>_. ''SECURITY: Catching general Exception without logging or rethrowing can hide security issues.'')
       (OfType CatchClauseSyntax (DescendantNodes root'))"

definition isFileOperation :: "SyntaxNode \<Rightarrow> bool" where
  "isFileOperation invocation =
     (let methodName = Expression invocation in
      contains methodName ''File.Delete'' \<or> contains methodName ''File.Move'' \<or>
      contains methodName ''Directory.Delete'' \<or> contains methodName ''File.WriteAllText'')"

definition file_operation_suggestions :: "SyntaxNode \<Rightarrow> string list" where
  "file_operation_suggestions root' =
     first_match isFileOperation
       (\<lambda>invocation. ''SECURITY: File system operation '' @ quoted (Expression invocation) @
          '' detected. Ensure proper path validation to prevent directory traversal attacks.'')
       (OfType InvocationExpressionSyntax (DescendantNodes root'))"

definition weak_random_suggestions :: "SyntaxNode \<Rightarrow> string list" where
  "weak_random_suggestions root' =
     each_match (\<lambda>creation. Type creation = ''Random'')
       (\<lambda>_. ''SECURITY: System.Random is not cryptographically secure. Use RandomNumberGenerator for security-sensitive operations.'')
       (OfType ObjectCreationExpressionSyntax (DescendantNodes root'))"

definition GenerateSecuritySuggestions :: "SyntaxNode \<Rightarrow> string list" where
  "GenerateSecuritySuggestions root' =
     sql_injection_suggestions root' @ hardcoded_secret_suggestions root' @
     swallowed_exception_suggestions root' @ file_operation_suggestions root' @
     weak_random_suggestions root'"

subsection \<open>\<open>GeneratePerformanceSuggestions\<close>\<close>

definition IsStringType :: "SyntaxNode \<Rightarrow> bool" where
  "IsStringType expression =
     (let leftText = Left expression; rightText = Right expression in
      startsWith leftText [CHR 0x22] \<or> startsWith rightText [CHR 0x22] \<or>
      contains leftText ''.ToString()'' \<or> contains rightText ''.ToString()'')"

definition isLoop :: "SyntaxNode \<Rightarrow> bool" where
  "isLoop n \<longleftrightarrow>
     Class n = ForStatementSyntax \<or> Class n = ForEachStatementSyntax \<or>
     Class n = WhileStatementSyntax"

definition concat_in_loop_suggestions :: "SyntaxNode \<Rightarrow> string list" where
  "concat_in_loop_suggestions root' =
     first_match
       (\<lambda>loop. filter IsStringType
                 (filter isAddExpression (filter isBinaryExpression (DescendantNodes loop))) \<noteq> [])
       (\<lambda>_. ''PERFORMANCE: String concatenation inside loop detected. Use StringBuilder for better performance.'')
       (filter isLoop (DescendantNodes root'))"

text \<open>
  \<open>for (i = 0; i < invocations.Count - 1; i++)\<close>: the last invocation is never the
  current one; the inner \<open>break\<close> leaves only the loop over the next three.
\<close>

fun tolist_scan :: "SyntaxNode list \<Rightarrow> string list" where
  "tolist_scan (current # next # rest) =
     (if contains (ToString current) ''.ToList()'' then
        first_match (\<lambda>n. contains (ToString n) ''.Count'' \<or> contains (ToString n) ''.Any()'')
          (\<lambda>_. ''PERFORMANCE: Avoid calling ToList() before Count/Any. Use Count()/Any() directly on IEnumerable.'')
          (take 3 (next # rest))
      else [])
     @ tolist_scan (next # rest)"
| "tolist_scan _ = []"

text \<open>
  The condition of the deferred-query rule, with the precedence C# gives it:
  \<open>a || b || c && !d && !e\<close> is \<open>a || b || (c && !d && !e)\<close>.
\<close>

definition isDeferredQuery :: "string \<Rightarrow> bool" where
  "isDeferredQuery invocationText \<longleftrightarrow>
     contains invocationText ''.Where('' \<or> contains invocationText ''.Select('' \<or>
     (contains invocationText ''.OrderBy('' \<and> \<not> contains invocationText ''.ToList()'' \<and>
      \<not> contains invocationText ''.ToArray()'')"

definition initializerInvocation :: "SyntaxNode \<Rightarrow> SyntaxNode option" where
  "initializerInvocation variable =
     (case Initializer variable of
        None \<Rightarrow> None
      | Some clause \<Rightarrow>
          (case Value clause of
             None \<Rightarrow> None
           | Some v \<Rightarrow> if Class v = InvocationExpressionSyntax then Some v else None))"

definition holdsDeferredQuery :: "SyntaxNode \<Rightarrow> bool" where
  "holdsDeferredQuery variable =
     (case initializerInvocation variable of
        None \<Rightarrow> False
      | Some invocation \<Rightarrow> isDeferredQuery (ToString invocation))"

definition deferred_query_message :: "SyntaxNode \<Rightarrow> string" where
  "deferred_query_message variable =
     ''PERFORMANCE: Variable '' @ quoted (Identifier variable) @
     '' holds a deferred LINQ query. Consider materializing with ToList()/ToArray() if enumerated multiple times.''"

definition deferred_query_suggestions :: "SyntaxNode \<Rightarrow> string list" where
  "deferred_query_suggestions root' =
     each_match holdsDeferredQuery deferred_query_message
       (OfType VariableDeclaratorSyntax (DescendantNodes root'))"

definition string_format_suggestions :: "SyntaxNode \<Rightarrow> string list" where
  "string_format_suggestions root' =
     (if filter (\<lambda>inv. contains (Expression inv) ''string.Format'' \<or>
                        contains (Expression inv) ''String.Concat'')
           (OfType InvocationExpressionSyntax (DescendantNodes root')) \<noteq> []
      then [''PERFORMANCE: Consider using string interpolation instead of string.Format for better readability and performance.'']
      else [])"

definition configure_await_suggestions :: "SyntaxNode \<Rightarrow> string list" where
  "configure_await_suggestions root' =
     first_match (\<lambda>await. \<not> contains (ToString await) ''ConfigureAwait'')
       (\<lambda>_. ''PERFORMANCE: Consider using ConfigureAwait(false) in library code to avoid unnecessary context switches.'')
       (OfType AwaitExpressionSyntax (DescendantNodes root'))"

definition chainCount :: "string \<Rightarrow> int" where
  "chainCount chainText =
     int (count_separators [''.Where('', ''.Select('', ''.OrderBy('', ''.GroupBy(''] chainText)"

definition linq_chain_suggestions :: "SyntaxNode \<Rightarrow> string list" where
  "linq_chain_suggestions root' =
     first_match (\<lambda>chain. chainCount (ToString chain) > 3)
       (\<lambda>_. ''PERFORMANCE: Excessive LINQ method chaining detected. Consider combining operations or using query syntax.'')
       (filter (\<lambda>inv. contains (ToString inv) ''.Where('' \<or> contains (ToString inv) ''.Select('')
          (OfType InvocationExpressionSyntax (DescendantNodes root')))"

definition GeneratePerformanceSuggestions :: "SyntaxNode \<Rightarrow> string list" where
  "GeneratePerformanceSuggestions root' =
     concat_in_loop_suggestions root' @
     tolist_scan (OfType InvocationExpressionSyntax (DescendantNodes root')) @
     deferred_query_suggestions root' @ string_format_suggestions root' @
     configure_await_suggestions root' @ linq_chain_suggestions root'"

subsection \<open>\<open>GenerateLinqSuggestions\<close>\<close>

definition countComparedToZero :: "SyntaxNode \<times> SyntaxNode \<Rightarrow> bool" where
  "countComparedToZero pn =
     (case pn of
        (parent, invocation) \<Rightarrow>
          contains (ToString invocation) ''.Count()'' \<and> isBinaryExpression parent \<and>
          (let comparison = ToString parent in
           contains comparison ''> 0'' \<or> contains comparison ''!= 0'' \<or>
           contains comparison ''== 0''))"

definition GenerateLinqSuggestions :: "SyntaxNode \<Rightarrow> string list" where
  "GenerateLinqSuggestions root' =
     (let invocations = OfType InvocationExpressionSyntax (DescendantNodes root') in
        first_match countComparedToZero
          (\<lambda>_. ''LINQ: Use Any() instead of Count() > 0 for better performance.'')
          (filter (\<lambda>(parent, n). Class n = InvocationExpressionSyntax)
             (DescendantNodesWithParent root'))
      @ first_match
          (\<lambda>i. contains (ToString i) ''.Where('' \<and> contains (ToString i) ''.Count()'')
          (\<lambda>_. ''LINQ: Use Count(predicate) instead of Where(predicate).Count() for better performance.'')
          invocations
      @ first_match
          (\<lambda>i. contains (ToString i) ''.Where('' \<and> contains (ToString i) ''.Any()'')
          (\<lambda>_. ''LINQ: Use Any(predicate) instead of Where(predicate).Any() for better performance.'')
          invocations
      @ first_match
          (\<lambda>i. contains (ToString i) ''.Where('' \<and>
                (contains (ToString i) ''.First()'' \<or> contains (ToString i) ''.FirstOrDefault()''))
          (\<lambda>_. ''LINQ: Use First(predicate) instead of Where(predicate).First() for better performance.'')
          invocations
      @ first_match
          (\<lambda>i. contains (ToString i) ''.Select(x => x)'')
          (\<lambda>_. ''LINQ: Redundant Select(x => x) detected. This is an identity operation and can be removed.'')
          invocations
      @ first_match
          (\<lambda>i. contains (ToString i) ''.OrderBy('' \<and> contains (ToString i) ''.First'')
          (\<lambda>_. ''LINQ: Consider using MinBy/MaxBy instead of OrderBy().First() for better performance.'')
          invocations
      @ first_match
          (\<lambda>i. contains (ToString i) ''.ToList().Where('')
          (\<lambda>_. ''LINQ: Apply Where() filter before ToList() to avoid materializing unnecessary items.'')
          invocations
      @ first_match
          (\<lambda>(parent, query). Class parent = EqualsValueClauseSyntax \<and>
                               int (length (ToString query)) > 100)
          (\<lambda>_. ''LINQ: Complex query detected. If enumerated multiple times, consider materializing with ToList().'')
          (filter (\<lambda>(parent, n). Class n = QueryExpressionSyntax)
             (DescendantNodesWithParent root')))"

subsection \<open>\<open>AnalyzeCode\<close>\<close>

text \<open>
  \<open>CSharpSyntaxTree.ParseText\<close> and \<open>GetDiagnostics\<close> are Roslyn's: the tree provider is
  a parameter, from the code and the file name to the root and the diagnostics.
\<close>

type_synonym TreeProvider = "string \<Rightarrow> string \<Rightarrow> SyntaxNode \<times> Diagnostic list"

definition toDiagnosticResult :: "Diagnostic \<Rightarrow> DiagnosticResult" where
  "toDiagnosticResult diagnostic =
     \<lparr> Id = diag_Id diagnostic,
       Severity = Severity_ToString (diag_Severity diagnostic),
       Message = diag_Message diagnostic,
       Location = Some \<lparr> Line = StartLine diagnostic + 1,
                         Column = StartCharacter diagnostic + 1,
                         File = Path diagnostic \<rparr>,
       Category = diag_Category diagnostic \<rparr>"

definition new_AnalysisResult :: AnalysisResult where
  "new_AnalysisResult =
     \<lparr> Diagnostics = [],
       Metrics = \<lparr> Classes = 0, Methods = 0, Lines = 0, CyclomaticComplexity = 0 \<rparr>,
       Suggestions = [] \<rparr>"

definition AddRange :: "'a list \<Rightarrow> 'a list \<Rightarrow> 'a list" where
  "AddRange xs ys = xs @ ys"

definition AnalyzeCode :: "TreeProvider \<Rightarrow> string \<Rightarrow> string \<Rightarrow> AnalysisResult" where
  "AnalyzeCode roslyn code fileName =
     (case roslyn code fileName of
        (root', diagnostics) \<Rightarrow>
          (let r0 = new_AnalysisResult;
               r1 = r0\<lparr>Diagnostics :=
                      map toDiagnosticResult
                        (filter (\<lambda>d. diag_Severity d \<noteq> Hidden) diagnostics)\<rparr>;
               r2 = r1\<lparr>Metrics := CalculateMetrics root'\<rparr>;
               r3 = r2\<lparr>Suggestions := GenerateSuggestions root' diagnostics\<rparr>;
               r4 = r3\<lparr>Suggestions := AddRange (Suggestions r3) (GenerateSecuritySuggestions root')\<rparr>;
               r5 = r4\<lparr>Suggestions := AddRange (Suggestions r4) (GeneratePerformanceSuggestions root')\<rparr>;
               r6 = r5\<lparr>Suggestions := AddRange (Suggestions r5) (GenerateLinqSuggestions root')\<rparr>
           in r6))"

subsection \<open>Cyclomatic complexity as the specification words it\<close>

text \<open>
  The specification gives the complexity of a subtree as one plus the number of decision
  nodes plus the number of short-circuit logical expressions below its root. This is a
  second definition, by one recursion over the tree, to compare the code with.
\<close>

definition spec_decision_node :: "SyntaxNode \<Rightarrow> bool" where
  "spec_decision_node n \<longleftrightarrow>
     Class n = IfStatementSyntax \<or> Class n = WhileStatementSyntax \<or>
     Class n = ForStatementSyntax \<or> Class n = ForEachStatementSyntax \<or>
     Class n = CaseSwitchLabelSyntax \<or> Class n = CatchClauseSyntax \<or>
     Class n = ConditionalExpressionSyntax"

definition spec_short_circuit :: "SyntaxNode \<Rightarrow> bool" where
  "spec_short_circuit n \<longleftrightarrow>
     Class n = BinaryExpressionSyntax LogicalAndExpression \<or>
     Class n = BinaryExpressionSyntax LogicalOrExpression"

fun count_in :: "(SyntaxNode \<Rightarrow> bool) \<Rightarrow> SyntaxNode \<Rightarrow> nat" where
  "count_in P (SyntaxNode k t i m l cs) =
     (if P (SyntaxNode k t i m l cs) then 1 else 0) + sum_list (map (count_in P) cs)"

definition count_below :: "(SyntaxNode \<Rightarrow> bool) \<Rightarrow> SyntaxNode \<Rightarrow> nat" where
  "count_below P n = sum_list (map (count_in P) (ChildNodes n))"

definition spec_complexity :: "SyntaxNode \<Rightarrow> nat" where
  "spec_complexity n = 1 + count_below spec_decision_node n + count_below spec_short_circuit n"

subsection \<open>Sample trees\<close>

definition leaf :: "SyntaxClass \<Rightarrow> string \<Rightarrow> SyntaxNode" where
  "leaf k t = SyntaxNode k t [] [] [] []"

definition inner :: "SyntaxClass \<Rightarrow> string \<Rightarrow> SyntaxNode list \<Rightarrow> SyntaxNode" where
  "inner k t cs = SyntaxNode k t [] [] [] cs"

text \<open>
  The tree of \<open>public class A { public void M(){ if(true){} if(false){} } }\<close>:
  compilation unit, class, method (return type, parameter list, body), two \<open>if\<close>
  statements, each with its condition and its block.
\<close>

definition tree_two_ifs :: SyntaxNode where
  "tree_two_ifs =
     inner OtherSyntax ''public class A { public void M(){ if(true){} if(false){} } }''
      [SyntaxNode ClassDeclarationSyntax
         ''public class A { public void M(){ if(true){} if(false){} } }'' ''A''
         [PublicKeyword] []
         [SyntaxNode MethodDeclarationSyntax ''public void M(){ if(true){} if(false){} }'' ''M''
            [PublicKeyword] [OtherTrivia]
            [leaf OtherSyntax ''void'',
             leaf OtherSyntax ''()'',
             inner BlockSyntax ''{ if(true){} if(false){} }''
               [inner IfStatementSyntax ''if(true){}''
                  [leaf (LiteralExpressionSyntax OtherLiteralExpression) ''true'',
                   leaf BlockSyntax ''{}''],
                inner IfStatementSyntax ''if(false){}''
                  [leaf (LiteralExpressionSyntax OtherLiteralExpression) ''false'',
                   leaf BlockSyntax ''{}'']]]]]"

text \<open>The tree of \<open>class A { }\<close>: no decision node anywhere.\<close>

definition tree_empty_class :: SyntaxNode where
  "tree_empty_class =
     inner OtherSyntax ''class A { }''
      [SyntaxNode ClassDeclarationSyntax ''class A { }'' ''A'' [] [] []]"

text \<open>
  The tree of the statement \<open>var q = xs.Where(x => x > 0).ToList();\<close>: the declarator
  \<open>q\<close>, its initializer clause, and the invocation of \<open>ToList\<close> on the invocation of
  \<open>Where\<close>.
\<close>

definition tree_materialized_query :: SyntaxNode where
  "tree_materialized_query =
     inner OtherSyntax ''var q = xs.Where(x => x > 0).ToList();''
      [inner OtherSyntax ''var q = xs.Where(x => x > 0).ToList();''
        [inner OtherSyntax ''var q = xs.Where(x => x > 0).ToList();''
          [inner OtherSyntax ''var q = xs.Where(x => x > 0).ToList()''
            [leaf OtherSyntax ''var'',
             SyntaxNode VariableDeclaratorSyntax ''q = xs.Where(x => x > 0).ToList()'' ''q'' [] []
               [inner EqualsValueClauseSyntax ''= xs.Where(x => x > 0).ToList()''
                 [inner InvocationExpressionSyntax ''xs.Where(x => x > 0).ToList()''
                   [inner OtherSyntax ''xs.Where(x => x > 0).ToList''
                     [inner InvocationExpressionSyntax ''xs.Where(x => x > 0)''
                       [inner OtherSyntax ''xs.Where''
                          [leaf OtherSyntax ''xs'', leaf OtherSyntax ''Where''],
                        inner OtherSyntax ''(x => x > 0)''
                          [inner OtherSyntax ''x => x > 0''
                            [inner OtherSyntax ''x => x > 0''
                              [SyntaxNode OtherSyntax ''x'' ''x'' [] [] [],
                               inner (BinaryExpressionSyntax OtherBinaryExpression) ''x > 0''
                                 [leaf OtherSyntax ''x'',
                                  leaf (LiteralExpressionSyntax OtherLiteralExpression) ''0'']]]]],
                      leaf OtherSyntax ''ToList''],
                    leaf OtherSyntax ''()'']]]]]]]"

text \<open>
  The second example of the project's integration guide, which the guide says is reported
  with the message about the variable \<open>password\<close> and the message about SQL injection:
  \<^verbatim>\<open>
  public class UserService
  {
      private string password = "admin123";

      public void DeleteUser(string userName)
      {
          var query = "DELETE FROM Users WHERE Name = '" + userName + "'";
          ExecuteQuery(query);
      }
  }
  \<close>
  In its tree the field has a declaration with the declarator \<open>password\<close>; between the
  declarator and the literal stands the initializer clause.
\<close>

definition dquoted :: "string \<Rightarrow> string" where
  "dquoted s = [CHR 0x22] @ s @ [CHR 0x22]"

definition field_text :: string where
  "field_text = ''private string password = '' @ dquoted ''admin123'' @ '';''"

definition sql_left_text :: string where
  "sql_left_text = dquoted (''DELETE FROM Users WHERE Name = '' @ [CHR 0x27])"

definition sql_right_text :: string where
  "sql_right_text = dquoted [CHR 0x27]"

definition concat_text :: string where
  "concat_text = sql_left_text @ '' + userName + '' @ sql_right_text"

definition block_text :: string where
  "block_text =
     ''{'' @ [CHR 0x0A] @ ''        var query = '' @ concat_text @ '';'' @ [CHR 0x0A] @
     ''        ExecuteQuery(query);'' @ [CHR 0x0A] @ ''    }''"

definition method_text :: string where
  "method_text = ''public void DeleteUser(string userName)'' @ [CHR 0x0A] @ ''    '' @ block_text"

definition class_text :: string where
  "class_text =
     ''public class UserService'' @ [CHR 0x0A] @ ''{'' @ [CHR 0x0A] @ ''    '' @ field_text @
     [CHR 0x0A, CHR 0x0A] @ ''    '' @ method_text @ [CHR 0x0A] @ ''}''"

definition tree_user_service :: SyntaxNode where
  "tree_user_service =
     inner OtherSyntax class_text
      [SyntaxNode ClassDeclarationSyntax class_text ''UserService'' [PublicKeyword] []
        [SyntaxNode OtherMemberDeclarationSyntax field_text [] [OtherKeyword] [OtherTrivia]
          [inner OtherSyntax (''string password = '' @ dquoted ''admin123'')
            [leaf OtherSyntax ''string'',
             SyntaxNode VariableDeclaratorSyntax (''password = '' @ dquoted ''admin123'')
               ''password'' [] []
               [inner EqualsValueClauseSyntax (''= '' @ dquoted ''admin123'')
                 [leaf (LiteralExpressionSyntax StringLiteralExpression)
                    (dquoted ''admin123'')]]]],
         SyntaxNode MethodDeclarationSyntax method_text ''DeleteUser'' [PublicKeyword]
           [OtherTrivia]
           [leaf OtherSyntax ''void'',
            inner OtherSyntax ''(string userName)''
              [SyntaxNode OtherSyntax ''string userName'' ''userName'' [] []
                 [leaf OtherSyntax ''string'']],
            inner BlockSyntax block_text
              [inner OtherSyntax (''var query = '' @ concat_text @ '';'')
                [inner OtherSyntax (''var query = '' @ concat_text)
                  [leaf OtherSyntax ''var'',
                   SyntaxNode VariableDeclaratorSyntax (''query = '' @ concat_text) ''query'' [] []
                     [inner EqualsValueClauseSyntax (''= '' @ concat_text)
                       [inner (BinaryExpressionSyntax AddExpression) concat_text
                         [inner (BinaryExpressionSyntax AddExpression)
                            (sql_left_text @ '' + userName'')
                            [leaf (LiteralExpressionSyntax StringLiteralExpression) sql_left_text,
                             leaf OtherSyntax ''userName''],
                          leaf (LiteralExpressionSyntax StringLiteralExpression)
                            sql_right_text]]]]],
               inner OtherSyntax ''ExecuteQuery(query);''
                 [inner InvocationExpressionSyntax ''ExecuteQuery(query)''
                   [leaf OtherSyntax ''ExecuteQuery'',
                    inner OtherSyntax ''(query)''
                      [inner OtherSyntax ''query'' [leaf OtherSyntax ''query'']]]]]]]]"

section \<open>The TypeScript view of a parsed result\<close>

text \<open>
  \<open>JSON.parse(output) as AnalysisResult\<close> is a cast: nothing is checked. The
  interfaces \<open>DiagnosticResult\<close>, \<open>CodeMetrics\<close> and \<open>AnalysisResult\<close> of
  \<open>roslynAnalyzer.ts\<close> say which shape the caller relies on. \<open>as_AnalysisResult\<close>
  reads a parsed value through these interfaces and is \<open>None\<close> where the value does
  not have the shape. An optional \<open>location\<close> is absent when the member is missing or
  \<open>null\<close>, which is how \<open>formatAnalysisResult\<close> tests it.
\<close>

record ts_Location =
  line :: rat
  column :: rat
  file' :: jsstring

record ts_DiagnosticResult =
  id' :: jsstring
  severity :: jsstring
  message :: jsstring
  location :: "ts_Location option"
  category :: jsstring

record ts_CodeMetrics =
  classes :: rat
  methods :: rat
  lines :: rat
  complexity :: rat

record ts_AnalysisResult =
  diagnostics :: "ts_DiagnosticResult list"
  metrics :: ts_CodeMetrics
  suggestions :: "jsstring list"

definition js_get :: "json \<Rightarrow> string \<Rightarrow> json option" where
  "js_get v name = (case v of JObject ms \<Rightarrow> map_of (rev ms) (js_string name) | _ \<Rightarrow> None)"

definition as_string :: "json \<Rightarrow> jsstring option" where
  "as_string v = (case v of JString s \<Rightarrow> Some s | _ \<Rightarrow> None)"

definition as_number :: "json \<Rightarrow> rat option" where
  "as_number v = (case v of JNumber q \<Rightarrow> Some q | _ \<Rightarrow> None)"

definition get_string :: "json \<Rightarrow> string \<Rightarrow> jsstring option" where
  "get_string v name = (case js_get v name of None \<Rightarrow> None | Some x \<Rightarrow> as_string x)"

definition get_number :: "json \<Rightarrow> string \<Rightarrow> rat option" where
  "get_number v name = (case js_get v name of None \<Rightarrow> None | Some x \<Rightarrow> as_number x)"

definition as_Location :: "json \<Rightarrow> ts_Location option" where
  "as_Location v =
     (case (get_number v ''line'', get_number v ''column'', get_string v ''file'') of
        (Some l, Some c, Some f) \<Rightarrow> Some \<lparr>line = l, column = c, file' = f\<rparr>
      | _ \<Rightarrow> None)"

definition as_optional_Location :: "json \<Rightarrow> ts_Location option option" where
  "as_optional_Location v =
     (case js_get v ''location'' of
        None \<Rightarrow> Some None
      | Some JNull \<Rightarrow> Some None
      | Some l \<Rightarrow> (case as_Location l of None \<Rightarrow> None | Some loc \<Rightarrow> Some (Some loc)))"

definition as_DiagnosticResult :: "json \<Rightarrow> ts_DiagnosticResult option" where
  "as_DiagnosticResult v =
     (case (get_string v ''id'', get_string v ''severity'', get_string v ''message'',
            as_optional_Location v, get_string v ''category'') of
        (Some i, Some s, Some m, Some l, Some c) \<Rightarrow>
          Some \<lparr>id' = i, severity = s, message = m, location = l, category = c\<rparr>
      | _ \<Rightarrow> None)"

definition as_CodeMetrics :: "json \<Rightarrow> ts_CodeMetrics option" where
  "as_CodeMetrics v =
     (case (get_number v ''classes'', get_number v ''methods'', get_number v ''lines'',
            get_number v ''complexity'') of
        (Some c, Some m, Some l, Some x) \<Rightarrow>
          Some \<lparr>classes = c, methods = m, lines = l, complexity = x\<rparr>
      | _ \<Rightarrow> None)"

definition as_array :: "(json \<Rightarrow> 'a option) \<Rightarrow> json \<Rightarrow> 'a list option" where
  "as_array f v = (case v of JArray xs \<Rightarrow> those (map f xs) | _ \<Rightarrow> None)"

definition get_array :: "(json \<Rightarrow> 'a option) \<Rightarrow> json \<Rightarrow> string \<Rightarrow> 'a list option" where
  "get_array f v name = (case js_get v name of None \<Rightarrow> None | Some x \<Rightarrow> as_array f x)"

definition as_AnalysisResult :: "json \<Rightarrow> ts_AnalysisResult option" where
  "as_AnalysisResult v =
     (case (get_array as_DiagnosticResult v ''diagnostics'',
            (case js_get v ''metrics'' of None \<Rightarrow> None | Some m \<Rightarrow> as_CodeMetrics m),
            get_array as_string v ''suggestions'') of
        (Some d, Some m, Some s) \<Rightarrow> Some \<lparr>diagnostics = d, metrics = m, suggestions = s\<rparr>
      | _ \<Rightarrow> None)"

section \<open>The wire format: \<open>JsonSerializer.Serialize\<close> with \<open>WriteIndented\<close>\<close>

text \<open>
  \<open>Main\<close> serializes the result with the default options but for the indentation. The
  serializer walks the object by its \<open>JsonPropertyName\<close> attributes, in the order the
  properties are declared, and writes a null reference as \<open>null\<close>. What it hands to the
  writer is the document below; the writer puts every element and member on a line of
  its own, two spaces deeper than its parent, and escapes strings with the default
  encoder: only the unreserved ASCII characters are written as they are.
\<close>

datatype platform = Unix | Windows

definition NewLine :: "platform \<Rightarrow> string" where
  "NewLine p = (case p of Unix \<Rightarrow> [CHR 0x0A] | Windows \<Rightarrow> [CHR 0x0D, CHR 0x0A])"

datatype wdoc =
    WNull
  | WNumber int
  | WString string
  | WArray "wdoc list"
  | WObject "(string \<times> wdoc) list"

definition hex_digit :: "nat \<Rightarrow> char" where
  "hex_digit d = (if d < 10 then char_of (48 + d) else char_of (55 + d))"

definition unicode_escape :: "char \<Rightarrow> string" where
  "unicode_escape c =
     [CHR 0x5C, CHR ''u'', CHR ''0'', CHR ''0'',
      hex_digit ((of_char c :: nat) div 16), hex_digit ((of_char c :: nat) mod 16)]"

definition html_sensitive :: "char \<Rightarrow> bool" where
  "html_sensitive c \<longleftrightarrow>
     c = CHR 0x22 \<or> c = CHR ''&'' \<or> c = CHR 0x27 \<or> c = CHR ''+'' \<or> c = CHR ''<'' \<or>
     c = CHR ''>'' \<or> c = CHR 0x60"

definition escape_char :: "char \<Rightarrow> string" where
  "escape_char c =
     (if c = CHR 0x5C then [CHR 0x5C, CHR 0x5C]
      else if c = CHR 0x08 then [CHR 0x5C, CHR ''b'']
      else if c = CHR 0x09 then [CHR 0x5C, CHR ''t'']
      else if c = CHR 0x0A then [CHR 0x5C, CHR ''n'']
      else if c = CHR 0x0C then [CHR 0x5C, CHR ''f'']
      else if c = CHR 0x0D then [CHR 0x5C, CHR ''r'']
      else if (of_char c :: nat) < 0x20 \<or> 0x7F \<le> (of_char c :: nat) \<or> html_sensitive c
        then unicode_escape c
      else [c])"

definition write_string :: "string \<Rightarrow> string" where
  "write_string s = [CHR 0x22] @ concat (map escape_char s) @ [CHR 0x22]"

definition indent :: "nat \<Rightarrow> string" where
  "indent k = replicate k CHR '' ''"

fun write_value :: "string \<Rightarrow> nat \<Rightarrow> wdoc \<Rightarrow> string"
  and write_elements :: "string \<Rightarrow> nat \<Rightarrow> wdoc list \<Rightarrow> string"
  and write_members :: "string \<Rightarrow> nat \<Rightarrow> (string \<times> wdoc) list \<Rightarrow> string"
where
  "write_value nl k WNull = ''null''"
| "write_value nl k (WNumber i) = string_of_int i"
| "write_value nl k (WString s) = write_string s"
| "write_value nl k (WArray []) = ''[]''"
| "write_value nl k (WArray (x # xs)) =
     ''['' @ nl @ indent (k + 2) @ write_elements nl (k + 2) (x # xs) @ nl @ indent k @ '']''"
| "write_value nl k (WObject []) = ''{}''"
| "write_value nl k (WObject (m # ms)) =
     ''{'' @ nl @ indent (k + 2) @ write_members nl (k + 2) (m # ms) @ nl @ indent k @ ''}''"
| "write_elements nl k [] = []"
| "write_elements nl k [x] = write_value nl k x"
| "write_elements nl k (x # y # ys) =
     write_value nl k x @ '','' @ nl @ indent k @ write_elements nl k (y # ys)"
| "write_members nl k [] = []"
| "write_members nl k [(name, v)] = write_string name @ '': '' @ write_value nl k v"
| "write_members nl k ((name, v) # m # ms) =
     write_string name @ '': '' @ write_value nl k v @ '','' @ nl @ indent k @
     write_members nl k (m # ms)"

definition doc_of_LocationInfo :: "LocationInfo \<Rightarrow> wdoc" where
  "doc_of_LocationInfo l =
     WObject [(''line'', WNumber (Line l)), (''column'', WNumber (Column l)),
              (''file'', WString (File l))]"

definition doc_of_DiagnosticResult :: "DiagnosticResult \<Rightarrow> wdoc" where
  "doc_of_DiagnosticResult d =
     WObject [(''id'', WString (Id d)), (''severity'', WString (Severity d)),
              (''message'', WString (Message d)),
              (''location'', case Location d of None \<Rightarrow> WNull
                                              | Some l \<Rightarrow> doc_of_LocationInfo l),
              (''category'', WString (Category d))]"

definition doc_of_CodeMetrics :: "CodeMetrics \<Rightarrow> wdoc" where
  "doc_of_CodeMetrics m =
     WObject [(''classes'', WNumber (Classes m)), (''methods'', WNumber (Methods m)),
              (''lines'', WNumber (Lines m)),
              (''complexity'', WNumber (CyclomaticComplexity m))]"

definition doc_of_AnalysisResult :: "AnalysisResult \<Rightarrow> wdoc" where
  "doc_of_AnalysisResult r =
     WObject [(''diagnostics'', WArray (map doc_of_DiagnosticResult (Diagnostics r))),
              (''metrics'', doc_of_CodeMetrics (Metrics r)),
              (''suggestions'', WArray (map WString (Suggestions r)))]"

definition Serialize :: "platform \<Rightarrow> AnalysisResult \<Rightarrow> string" where
  "Serialize p r = write_value (NewLine p) 0 (doc_of_AnalysisResult r)"

text \<open>
  \<open>Main\<close>: the exit code, the standard output and the standard error. The argument is a
  path when a file of that name exists, and the code itself otherwise.
\<close>

definition usage :: "platform \<Rightarrow> string" where
  "usage p =
     ''Usage: CSharpAnalyzer <file.cs|code>'' @ NewLine p @
     ''  Analyzes C# code and outputs JSON with diagnostics and metrics'' @ NewLine p"

definition Main :: "platform \<Rightarrow> TreeProvider \<Rightarrow> (string \<rightharpoonup> string) \<Rightarrow> string list \<Rightarrow> int \<times> string \<times> string" where
  "Main p roslyn fs args =
     (case args of
        [] \<Rightarrow> (1, [], usage p)
      | a # _ \<Rightarrow>
          (let (code, fileName) =
                 (case fs a of Some content \<Rightarrow> (content, a) | None \<Rightarrow> (a, ''snippet.cs''))
           in (0, Serialize p (AnalyzeCode roslyn code fileName) @ NewLine p, [])))"

section \<open>A result as the orchestrator's caller sees it\<close>

text \<open>
  The value the TypeScript side holds for a C# result: the same fields under the names of
  the TypeScript interfaces, every character as its code unit and every integer as a
  number.
\<close>

definition ts_of_LocationInfo :: "LocationInfo \<Rightarrow> ts_Location" where
  "ts_of_LocationInfo l =
     \<lparr>line = of_int (Line l), column = of_int (Column l), file' = js_string (File l)\<rparr>"

definition ts_of_DiagnosticResult :: "DiagnosticResult \<Rightarrow> ts_DiagnosticResult" where
  "ts_of_DiagnosticResult d =
     \<lparr>id' = js_string (Id d), severity = js_string (Severity d),
      message = js_string (Message d),
      location = map_option ts_of_LocationInfo (Location d),
      category = js_string (Category d)\<rparr>"

definition ts_of_CodeMetrics :: "CodeMetrics \<Rightarrow> ts_CodeMetrics" where
  "ts_of_CodeMetrics m =
     \<lparr>classes = of_int (Classes m), methods = of_int (Methods m), lines = of_int (Lines m),
      complexity = of_int (CyclomaticComplexity m)\<rparr>"

definition ts_of_AnalysisResult :: "AnalysisResult \<Rightarrow> ts_AnalysisResult" where
  "ts_of_AnalysisResult r =
     \<lparr>diagnostics = map ts_of_DiagnosticResult (Diagnostics r),
      metrics = ts_of_CodeMetrics (Metrics r),
      suggestions = map js_string (Suggestions r)\<rparr>"

text \<open>The value \<open>JSON.parse\<close> builds for a written document.\<close>

fun json_of :: "wdoc \<Rightarrow> json" where
  "json_of WNull = JNull"
| "json_of (WNumber i) = JNumber (of_int i)"
| "json_of (WString s) = JString (js_string s)"
| "json_of (WArray xs) = JArray (map json_of xs)"
| "json_of (WObject ms) = JObject (map (\<lambda>(name, v). (js_string name, json_of v)) ms)"

text \<open>The number of nested parser calls a written document needs.\<close>

fun fuel :: "wdoc \<Rightarrow> nat" where
  "fuel WNull = 1"
| "fuel (WNumber i) = 1"
| "fuel (WString s) = 1"
| "fuel (WArray xs) = 1 + sum_list (map (\<lambda>x. 1 + fuel x) xs)"
| "fuel (WObject ms) = 1 + sum_list (map (\<lambda>(name, v). 1 + fuel v) ms)"

definition number_end :: "string \<Rightarrow> bool" where
  "number_end rest =
     (case rest of
        [] \<Rightarrow> True
      | c # _ \<Rightarrow> \<not> is_digit c \<and> c \<noteq> CHR ''.'' \<and> c \<noteq> CHR ''e'' \<and> c \<noteq> CHR ''E'')"

text \<open>A sample result with one diagnostic, for the concrete checks.\<close>

definition sample_result :: AnalysisResult where
  "sample_result =
     \<lparr> Diagnostics =
         [\<lparr> Id = ''CS0103'', Severity = ''Error'',
            Message = ''The name 'x' does not exist'',
            Location = Some \<lparr> Line = 1, Column = 12, File = ''snippet.cs'' \<rparr>,
            Category = ''Compiler'' \<rparr>],
       Metrics = \<lparr> Classes = 1, Methods = 1, Lines = 1, CyclomaticComplexity = 3 \<rparr>,
       Suggestions = [''Public method 'M' is missing XML documentation.''] \<rparr>"

section \<open>The parser's fuel\<close>

text \<open>
  Every successful call consumes input, and the fuel it needs is bounded by what it
  consumes; so the length of the text, with which \<open>JSON_parse\<close> starts, is always
  enough, and a text is rejected only for its syntax.
\<close>

lemma consP_SomeD:
  "consP x p = Some (ys, r) \<Longrightarrow> \<exists>xs. p = Some (xs, r) \<and> ys = x # xs"
  by (auto simp: consP_def split: option.splits)

lemma parse_chars_shorter:
  "parse_chars s = Some (x, r) \<Longrightarrow> length r < length s"
  "parse_escape s = Some (x, r) \<Longrightarrow> length r < length s"
  "parse_unicode s = Some (x, r) \<Longrightarrow> length r < length s"
proof (induction s and s and s arbitrary: x and x and x
    rule: parse_chars_parse_escape_parse_unicode.induct)
  case (2 c cs)
  then show ?case
    by (fastforce split: if_splits dest!: consP_SomeD)
next
  case (4 e cs)
  then show ?case
    by (fastforce split: if_splits option.splits dest!: consP_SomeD)
next
  case (5 a b c d cs)
  then show ?case
    by (fastforce split: option.splits dest!: consP_SomeD)
qed simp_all

lemma length_skip_ws: "length (skip_ws s) \<le> length s"
  by (simp add: skip_ws_def length_dropWhile_le)

lemma parse_sign_length: "parse_sign s = (b, r) \<Longrightarrow> length r \<le> length s"
  by (auto simp: parse_sign_def split: list.splits if_splits)

lemma parse_int_part_shorter: "parse_int_part s = Some (i, r) \<Longrightarrow> length r < length s"
  by (auto simp: parse_int_part_def less_Suc_eq_le length_dropWhile_le split: list.splits if_splits)

lemma parse_frac_length: "parse_frac s = Some (f, r) \<Longrightarrow> length r \<le> length s"
  by (auto simp: parse_frac_def Let_def le_SucI length_dropWhile_le split: list.splits if_splits)

lemma parse_exp_sign_length: "parse_exp_sign s = (b, r) \<Longrightarrow> length r \<le> length s"
  by (auto simp: parse_exp_sign_def split: list.splits if_splits)

lemma parse_exp_length: "parse_exp s = Some (e, r) \<Longrightarrow> length r \<le> length s"
proof -
  assume a: "parse_exp s = Some (e, r)"
  show ?thesis
  proof (cases s)
    case Nil
    with a show ?thesis by (simp add: parse_exp_def)
  next
    case (Cons c cs)
    show ?thesis
    proof (cases "c = CHR ''e'' \<or> c = CHR ''E''")
      case False
      with a Cons show ?thesis by (simp add: parse_exp_def)
    next
      case True
      obtain neg cs' where p: "parse_exp_sign cs = (neg, cs')" by (cases "parse_exp_sign cs")
      from a Cons True p have "r = dropWhile is_digit cs'"
        by (auto simp: parse_exp_def Let_def split: if_splits)
      then have "length r \<le> length cs'" by (simp add: length_dropWhile_le)
      with parse_exp_sign_length [OF p] Cons show ?thesis by simp
    qed
  qed
qed

lemma parse_number_shorter: "parse_number s = Some (q, r) \<Longrightarrow> length r < length s"
proof -
  assume a: "parse_number s = Some (q, r)"
  obtain neg s1 where s1: "parse_sign s = (neg, s1)" by (cases "parse_sign s")
  from a s1 obtain i s2 where s2: "parse_int_part s1 = Some (i, s2)"
    by (auto simp: parse_number_def split: option.splits)
  from a s1 s2 obtain f s3 where s3: "parse_frac s2 = Some (f, s3)"
    by (auto simp: parse_number_def split: option.splits)
  from a s1 s2 s3 obtain e where s4: "parse_exp s3 = Some (e, r)"
    by (auto simp: parse_number_def split: option.splits)
  show ?thesis
    using parse_sign_length [OF s1] parse_int_part_shorter [OF s2] parse_frac_length [OF s3]
      parse_exp_length [OF s4] by linarith
qed

text \<open>What a successful call with fuel \<open>Suc m\<close> did, and the same steps with other fuel.\<close>

lemma parse_value_scalar:
  "c \<noteq> CHR ''{'' \<Longrightarrow> c \<noteq> CHR ''['' \<Longrightarrow>
     parse_value (Suc n) (c # cs) = parse_value (Suc 0) (c # cs)"
  by simp

lemma parse_value_scalar_shorter:
  assumes "c \<noteq> CHR ''{''" "c \<noteq> CHR ''[''" "parse_value (Suc n) (c # cs) = Some (v, r)"
  shows "length r < Suc (length cs)"
proof -
  consider (str) "c = CHR 0x22"
    | (null) "c \<noteq> CHR 0x22" "startsWith (c # cs) ''null''"
    | (true) "c \<noteq> CHR 0x22" "\<not> startsWith (c # cs) ''null''" "startsWith (c # cs) ''true''"
    | (false) "c \<noteq> CHR 0x22" "\<not> startsWith (c # cs) ''null''" "\<not> startsWith (c # cs) ''true''"
        "startsWith (c # cs) ''false''"
    | (num) "c \<noteq> CHR 0x22" "\<not> startsWith (c # cs) ''null''" "\<not> startsWith (c # cs) ''true''"
        "\<not> startsWith (c # cs) ''false''"
    by blast
  then show ?thesis
  proof cases
    case str
    with assms obtain x where "parse_chars cs = Some (x, r)"
      by (auto split: option.splits)
    then show ?thesis using parse_chars_shorter(1) by fastforce
  next
    case null
    with assms have "r = drop 4 (c # cs)" by simp
    then show ?thesis by simp
  next
    case true
    with assms have "r = drop 4 (c # cs)" by simp
    then show ?thesis by simp
  next
    case false
    with assms have "r = drop 5 (c # cs)" by simp
    then show ?thesis by simp
  next
    case num
    with assms obtain q where "parse_number (c # cs) = Some (q, r)"
      by (auto split: option.splits)
    then show ?thesis using parse_number_shorter by fastforce
  qed
qed

lemma parse_value_SucE:
  assumes "parse_value (Suc m) s = Some (v, r)"
  obtains (empty_object) cs where "s = CHR ''{'' # cs" "skip_ws cs = CHR ''}'' # r" "v = JObject []"
  | (object) cs d ds ms where "s = CHR ''{'' # cs" "skip_ws cs = d # ds" "d \<noteq> CHR ''}''"
      "parse_members m (d # ds) = Some (ms, r)" "v = JObject ms"
  | (empty_array) cs where "s = CHR ''['' # cs" "skip_ws cs = CHR '']'' # r" "v = JArray []"
  | (array) cs d ds vs where "s = CHR ''['' # cs" "skip_ws cs = d # ds" "d \<noteq> CHR '']''"
      "parse_elements m (d # ds) = Some (vs, r)" "v = JArray vs"
  | (scalar) c cs where "s = c # cs" "c \<noteq> CHR ''{''" "c \<noteq> CHR ''[''"
proof (cases s)
  case Nil
  with assms show ?thesis by simp
next
  case (Cons c cs)
  show ?thesis
  proof (cases "c = CHR ''{''")
    case True
    with assms Cons show ?thesis
      by (cases "skip_ws cs")
        (auto split: if_splits option.splits intro: empty_object object)
  next
    case False
    show ?thesis
    proof (cases "c = CHR ''[''")
      case True
      with assms Cons show ?thesis
        by (cases "skip_ws cs")
          (auto split: if_splits option.splits intro: empty_array array)
    next
      case False
      with \<open>c \<noteq> CHR ''{''\<close> Cons show ?thesis by (intro scalar)
    qed
  qed
qed

lemma parse_value_empty_object:
  "skip_ws cs = CHR ''}'' # r \<Longrightarrow> parse_value (Suc n) (CHR ''{'' # cs) = Some (JObject [], r)"
  by simp

lemma parse_value_object:
  "skip_ws cs = d # ds \<Longrightarrow> d \<noteq> CHR ''}'' \<Longrightarrow> parse_members n (d # ds) = Some (ms, r) \<Longrightarrow>
     parse_value (Suc n) (CHR ''{'' # cs) = Some (JObject ms, r)"
  by simp

lemma parse_value_empty_array:
  "skip_ws cs = CHR '']'' # r \<Longrightarrow> parse_value (Suc n) (CHR ''['' # cs) = Some (JArray [], r)"
  by simp

lemma parse_value_array:
  "skip_ws cs = d # ds \<Longrightarrow> d \<noteq> CHR '']'' \<Longrightarrow> parse_elements n (d # ds) = Some (vs, r) \<Longrightarrow>
     parse_value (Suc n) (CHR ''['' # cs) = Some (JArray vs, r)"
  by simp

lemma parse_elements_SucE:
  assumes "parse_elements (Suc m) s = Some (vs, r)"
  obtains (last) v r1 where "parse_value m s = Some (v, r1)" "skip_ws r1 = CHR '']'' # r"
      "vs = [v]"
  | (more) v r1 ds vs' where "parse_value m s = Some (v, r1)" "skip_ws r1 = CHR '','' # ds"
      "parse_elements m (skip_ws ds) = Some (vs', r)" "vs = v # vs'"
  using assms
  by (auto split: option.splits list.splits if_splits dest!: consP_SomeD)

lemma parse_elements_last:
  "parse_value n s = Some (v, r1) \<Longrightarrow> skip_ws r1 = CHR '']'' # r \<Longrightarrow>
     parse_elements (Suc n) s = Some ([v], r)"
  by simp

lemma parse_elements_more:
  "parse_value n s = Some (v, r1) \<Longrightarrow> skip_ws r1 = CHR '','' # ds \<Longrightarrow>
   parse_elements n (skip_ws ds) = Some (vs', r) \<Longrightarrow>
     parse_elements (Suc n) s = Some (v # vs', r)"
  by (simp add: consP_def)

lemma parse_members_SucE:
  assumes "parse_members (Suc m) s = Some (ms, r)"
  obtains (last) cs k r0 r1 v r2 where "s = CHR 0x22 # cs" "parse_chars cs = Some (k, r0)"
      "skip_ws r0 = CHR '':'' # r1" "parse_value m (skip_ws r1) = Some (v, r2)"
      "skip_ws r2 = CHR ''}'' # r" "ms = [(k, v)]"
  | (more) cs k r0 r1 v r2 ds ms' where "s = CHR 0x22 # cs" "parse_chars cs = Some (k, r0)"
      "skip_ws r0 = CHR '':'' # r1" "parse_value m (skip_ws r1) = Some (v, r2)"
      "skip_ws r2 = CHR '','' # ds" "parse_members m (skip_ws ds) = Some (ms', r)"
      "ms = (k, v) # ms'"
proof (cases s)
  case Nil
  with assms show ?thesis by simp
next
  case (Cons q cs)
  with assms have q: "q = CHR 0x22" by (simp split: if_splits)
  from assms Cons q obtain k r0 where k: "parse_chars cs = Some (k, r0)"
    by (auto split: option.splits)
  from assms Cons q k obtain r1 where c: "skip_ws r0 = CHR '':'' # r1"
    by (auto split: list.splits if_splits)
  from assms Cons q k c obtain v r2 where v: "parse_value m (skip_ws r1) = Some (v, r2)"
    by (auto split: option.splits)
  from assms Cons q k c v obtain d ds where d: "skip_ws r2 = d # ds"
    by (auto split: list.splits)
  from assms Cons q k c v d consider "d = CHR '',''" | "d \<noteq> CHR '',''" "d = CHR ''}''"
    by (auto split: if_splits)
  then show ?thesis
  proof cases
    case 1
    with assms Cons q k c v d obtain ms' where
      "parse_members m (skip_ws ds) = Some (ms', r)" "ms = (k, v) # ms'"
      by (auto dest!: consP_SomeD)
    with Cons q k c v d 1 show ?thesis by (intro more) auto
  next
    case 2
    with assms Cons q k c v d have "ms = [(k, v)]" "r = ds" by auto
    with Cons q k c v d 2 show ?thesis by (intro last) auto
  qed
qed

lemma parse_members_last:
  "parse_chars cs = Some (k, r0) \<Longrightarrow> skip_ws r0 = CHR '':'' # r1 \<Longrightarrow>
   parse_value n (skip_ws r1) = Some (v, r2) \<Longrightarrow> skip_ws r2 = CHR ''}'' # r \<Longrightarrow>
     parse_members (Suc n) (CHR 0x22 # cs) = Some ([(k, v)], r)"
  by simp

lemma parse_members_more:
  "parse_chars cs = Some (k, r0) \<Longrightarrow> skip_ws r0 = CHR '':'' # r1 \<Longrightarrow>
   parse_value n (skip_ws r1) = Some (v, r2) \<Longrightarrow> skip_ws r2 = CHR '','' # ds \<Longrightarrow>
   parse_members n (skip_ws ds) = Some (ms', r) \<Longrightarrow>
     parse_members (Suc n) (CHR 0x22 # cs) = Some ((k, v) # ms', r)"
  by (simp add: consP_def)

lemma length_skip_ws_Cons: "skip_ws s = c # t \<Longrightarrow> length t < length s"
  using length_skip_ws [of s] by simp

lemma fuel_enough:
  "(\<forall>s v r. parse_value m s = Some (v, r) \<longrightarrow>
      length r < length s \<and>
      (\<forall>n. length s - length r \<le> n \<longrightarrow> parse_value n s = Some (v, r))) \<and>
   (\<forall>s vs r. parse_elements m s = Some (vs, r) \<longrightarrow>
      length r < length s \<and>
      (\<forall>n. length s - length r \<le> n \<longrightarrow> parse_elements n s = Some (vs, r))) \<and>
   (\<forall>s ms r. parse_members m s = Some (ms, r) \<longrightarrow>
      length r < length s \<and>
      (\<forall>n. length s - length r \<le> n \<longrightarrow> parse_members n s = Some (ms, r)))"
proof (induction m)
  case 0
  show ?case by simp
next
  case (Suc m)
  then have IHv: "\<And>s v r. parse_value m s = Some (v, r) \<Longrightarrow> length r < length s"
    and IHv': "\<And>s v r n. parse_value m s = Some (v, r) \<Longrightarrow> length s - length r \<le> n \<Longrightarrow>
                 parse_value n s = Some (v, r)"
    and IHe: "\<And>s vs r. parse_elements m s = Some (vs, r) \<Longrightarrow> length r < length s"
    and IHe': "\<And>s vs r n. parse_elements m s = Some (vs, r) \<Longrightarrow> length s - length r \<le> n \<Longrightarrow>
                 parse_elements n s = Some (vs, r)"
    and IHm: "\<And>s ms r. parse_members m s = Some (ms, r) \<Longrightarrow> length r < length s"
    and IHm': "\<And>s ms r n. parse_members m s = Some (ms, r) \<Longrightarrow> length s - length r \<le> n \<Longrightarrow>
                 parse_members n s = Some (ms, r)"
    by blast+
  have "length r < length s \<and>
        (\<forall>n. length s - length r \<le> n \<longrightarrow> parse_value n s = Some (v, r))"
    if a: "parse_value (Suc m) s = Some (v, r)" for s v r
    using a
  proof (cases rule: parse_value_SucE)
    case (empty_object cs)
    have l: "length r < length cs" using length_skip_ws_Cons [OF empty_object(2)] .
    have "parse_value n s = Some (v, r)" if "length s - length r \<le> n" for n
    proof -
      from that l empty_object(1) obtain n' where "n = Suc n'" by (cases n) auto
      then show ?thesis
        using parse_value_empty_object [OF empty_object(2), of n'] empty_object by simp
    qed
    with l empty_object(1) show ?thesis by simp
  next
    case (object cs d ds ms)
    have l1: "length ds < length cs" using length_skip_ws_Cons [OF object(2)] .
    have l2: "length r < length (d # ds)" using IHm [OF object(4)] .
    have "parse_value n s = Some (v, r)" if "length s - length r \<le> n" for n
    proof -
      from that l1 l2 object(1) obtain n' where n: "n = Suc n'" by (cases n) auto
      with that l1 l2 object(1) have "length (d # ds) - length r \<le> n'" by simp
      then have "parse_members n' (d # ds) = Some (ms, r)" by (rule IHm' [OF object(4)])
      then show ?thesis
        using parse_value_object [OF object(2,3), of n' ms r] object(1,5) n by simp
    qed
    with l1 l2 object(1) show ?thesis by simp
  next
    case (empty_array cs)
    have l: "length r < length cs" using length_skip_ws_Cons [OF empty_array(2)] .
    have "parse_value n s = Some (v, r)" if "length s - length r \<le> n" for n
    proof -
      from that l empty_array(1) obtain n' where "n = Suc n'" by (cases n) auto
      then show ?thesis
        using parse_value_empty_array [OF empty_array(2), of n'] empty_array by simp
    qed
    with l empty_array(1) show ?thesis by simp
  next
    case (array cs d ds vs)
    have l1: "length ds < length cs" using length_skip_ws_Cons [OF array(2)] .
    have l2: "length r < length (d # ds)" using IHe [OF array(4)] .
    have "parse_value n s = Some (v, r)" if "length s - length r \<le> n" for n
    proof -
      from that l1 l2 array(1) obtain n' where n: "n = Suc n'" by (cases n) auto
      with that l1 l2 array(1) have "length (d # ds) - length r \<le> n'" by simp
      then have "parse_elements n' (d # ds) = Some (vs, r)" by (rule IHe' [OF array(4)])
      then show ?thesis
        using parse_value_array [OF array(2,3), of n' vs r] array(1,5) n by simp
    qed
    with l1 l2 array(1) show ?thesis by simp
  next
    case (scalar c cs)
    have l: "length r < Suc (length cs)"
      using parse_value_scalar_shorter [OF scalar(2,3)] a scalar(1) by simp
    have "parse_value n s = Some (v, r)" if "length s - length r \<le> n" for n
    proof -
      from that l scalar(1) obtain n' where "n = Suc n'" by (cases n) auto
      then show ?thesis
        using a parse_value_scalar [OF scalar(2,3), of n' cs]
          parse_value_scalar [OF scalar(2,3), of m cs] scalar(1) by simp
    qed
    with l scalar(1) show ?thesis by simp
  qed
  moreover have "length r < length s \<and>
        (\<forall>n. length s - length r \<le> n \<longrightarrow> parse_elements n s = Some (vs, r))"
    if a: "parse_elements (Suc m) s = Some (vs, r)" for s vs r
    using a
  proof (cases rule: parse_elements_SucE)
    case (last v r1)
    have l1: "length r1 < length s" using IHv [OF last(1)] .
    have l2: "length r < length r1" using length_skip_ws_Cons [OF last(2)] .
    have "parse_elements n s = Some (vs, r)" if "length s - length r \<le> n" for n
    proof -
      from that l1 l2 obtain n' where n: "n = Suc n'" by (cases n) auto
      with that l1 l2 have "length s - length r1 \<le> n'" by simp
      then have "parse_value n' s = Some (v, r1)" by (rule IHv' [OF last(1)])
      then show ?thesis
        using parse_elements_last [OF _ last(2), of n' s v] last(3) n by simp
    qed
    with l1 l2 show ?thesis by simp
  next
    case (more v r1 ds vs')
    have l1: "length r1 < length s" using IHv [OF more(1)] .
    have l2: "length ds < length r1" using length_skip_ws_Cons [OF more(2)] .
    have l3: "length r < length (skip_ws ds)" using IHe [OF more(3)] .
    have l4: "length (skip_ws ds) \<le> length ds" by (rule length_skip_ws)
    have "parse_elements n s = Some (vs, r)" if "length s - length r \<le> n" for n
    proof -
      from that l1 l2 l3 l4 obtain n' where n: "n = Suc n'" by (cases n) auto
      with that l1 l2 l3 l4 have "length s - length r1 \<le> n'"
        and "length (skip_ws ds) - length r \<le> n'" by simp_all
      then have "parse_value n' s = Some (v, r1)"
        and "parse_elements n' (skip_ws ds) = Some (vs', r)"
        using IHv' [OF more(1)] IHe' [OF more(3)] by simp_all
      then show ?thesis
        using parse_elements_more [OF _ more(2), of n' s v vs' r] more(4) n by simp
    qed
    with l1 l2 l3 l4 show ?thesis by simp
  qed
  moreover have "length r < length s \<and>
        (\<forall>n. length s - length r \<le> n \<longrightarrow> parse_members n s = Some (ms, r))"
    if a: "parse_members (Suc m) s = Some (ms, r)" for s ms r
    using a
  proof (cases rule: parse_members_SucE)
    case (last cs k r0 r1 v r2)
    have l0: "length r0 < length cs" using parse_chars_shorter(1) [OF last(2)] .
    have l1: "length r1 < length r0" using length_skip_ws_Cons [OF last(3)] .
    have l1': "length (skip_ws r1) \<le> length r1" by (rule length_skip_ws)
    have l2: "length r2 < length (skip_ws r1)" using IHv [OF last(4)] .
    have l3: "length r < length r2" using length_skip_ws_Cons [OF last(5)] .
    have "parse_members n s = Some (ms, r)" if "length s - length r \<le> n" for n
    proof -
      from that l0 l1 l1' l2 l3 last(1) obtain n' where n: "n = Suc n'" by (cases n) auto
      with that l0 l1 l1' l2 l3 last(1) have "length (skip_ws r1) - length r2 \<le> n'" by simp
      then have "parse_value n' (skip_ws r1) = Some (v, r2)" by (rule IHv' [OF last(4)])
      then show ?thesis
        using parse_members_last [OF last(2,3) _ last(5), of n'] last(1,6) n by simp
    qed
    with l0 l1 l1' l2 l3 last(1) show ?thesis by simp
  next
    case (more cs k r0 r1 v r2 ds ms')
    have l0: "length r0 < length cs" using parse_chars_shorter(1) [OF more(2)] .
    have l1: "length r1 < length r0" using length_skip_ws_Cons [OF more(3)] .
    have l1': "length (skip_ws r1) \<le> length r1" by (rule length_skip_ws)
    have l2: "length r2 < length (skip_ws r1)" using IHv [OF more(4)] .
    have l3: "length ds < length r2" using length_skip_ws_Cons [OF more(5)] .
    have l3': "length (skip_ws ds) \<le> length ds" by (rule length_skip_ws)
    have l4: "length r < length (skip_ws ds)" using IHm [OF more(6)] .
    have "parse_members n s = Some (ms, r)" if "length s - length r \<le> n" for n
    proof -
      from that l0 l1 l1' l2 l3 l3' l4 more(1) obtain n' where n: "n = Suc n'"
        by (cases n) auto
      with that l0 l1 l1' l2 l3 l3' l4 more(1)
      have "length (skip_ws r1) - length r2 \<le> n'" and "length (skip_ws ds) - length r \<le> n'"
        by simp_all
      then have "parse_value n' (skip_ws r1) = Some (v, r2)"
        and "parse_members n' (skip_ws ds) = Some (ms', r)"
        using IHv' [OF more(4)] IHm' [OF more(6)] by simp_all
      then show ?thesis
        using parse_members_more [OF more(2,3) _ more(5), of n'] more(1,7) n by simp
    qed
    with l0 l1 l1' l2 l3 l3' l4 more(1) show ?thesis by simp
  qed
  ultimately show ?case by blast
qed

text \<open>
  The fuel \<open>JSON_parse\<close> starts with never runs out: a text some amount of fuel parses is
  parsed to the same value by \<open>JSON_parse\<close>.
\<close>

lemma JSON_parse_fuel_suffices:
  "JSON_parse s = Some v \<longleftrightarrow>
     (\<exists>m r. parse_value m (skip_ws s) = Some (v, r) \<and> skip_ws r = [])"
proof
  assume "JSON_parse s = Some v"
  then obtain r where "parse_value (length s) (skip_ws s) = Some (v, r)" "skip_ws r = []"
    by (auto simp: JSON_parse_def split: option.splits if_splits)
  then show "\<exists>m r. parse_value m (skip_ws s) = Some (v, r) \<and> skip_ws r = []"
    by blast
next
  assume "\<exists>m r. parse_value m (skip_ws s) = Some (v, r) \<and> skip_ws r = []"
  then obtain m r where p: "parse_value m (skip_ws s) = Some (v, r)" and e: "skip_ws r = []"
    by blast
  have "length (skip_ws s) - length r \<le> length s"
    using length_skip_ws [of s] by simp
  with p fuel_enough [of m] have "parse_value (length s) (skip_ws s) = Some (v, r)"
    by blast
  with e show "JSON_parse s = Some v"
    by (simp add: JSON_parse_def)
qed

section \<open>Properties of the orchestrator\<close>

lemma effects_record_effect [simp]: "effects (record_effect x s) = effects s @ [x]"
  by (simp add: record_effect_def)

lemma files_record_effect [simp]: "files (record_effect x s) = files s"
  by (simp add: record_effect_def)




lemma snd_onError: "snd (onError e k tf m s) = cleanup e k tf s"
  by (simp add: onError_def)





lemma fst_runAnalyzer_exit0:
  assumes "outcome e = Exited (Some 0) out err"
  shows "fst (runAnalyzer e tf codeInput s) =
           (case JSON_parse out of
              Some v \<Rightarrow> Inr v
            | None \<Rightarrow> Inl (ParseFailed (syntax_error_text e out)))"
  using assms by (simp add: runAnalyzer_def onClose_def Let_def split: option.splits)

lemma fst_analyzeCode_exit0:
  assumes "isRoslynAvailable e s"
    and "isFilePath fileName \<or> writeFile_error e = None"
    and "outcome e = Exited (Some 0) out err"
  shows "fst (analyzeCode e s code fileName) =
           (case JSON_parse out of
              Some v \<Rightarrow> Inr v
            | None \<Rightarrow> Inl (ParseFailed (syntax_error_text e out)))"
  using assms by (auto simp: analyzeCode_def Let_def fst_runAnalyzer_exit0)

lemma isRoslynAvailable_env_ok: "isRoslynAvailable env_ok sys_built"
  by (simp add: isRoslynAvailable_def sys_built_def)

text \<open>
  C4. When the availability query finds no compiled analyzer, \<open>analyzeCode\<close> fails
  at once with the not-built error: nothing is written, nothing is spawned, and the
  file system is as before. The query itself only reads the file system.
\<close>

theorem C4_not_built_fails_before_any_effect:
  assumes "\<not> isRoslynAvailable e s"
  shows "analyzeCode e s code fileName = (Inl NotBuilt, s)"
  using assms by (simp add: analyzeCode_def)

theorem C4_witness:
  "\<not> isRoslynAvailable env_ok sys_empty \<and>
   analyzeCode env_ok sys_empty ''class A {}'' None = (Inl NotBuilt, sys_empty) \<and>
   effects (snd (analyzeCode env_ok sys_empty ''class A {}'' None)) = []"
proof -
  have h: "\<not> isRoslynAvailable env_ok sys_empty"
    by (simp add: isRoslynAvailable_def sys_empty_def)
  show ?thesis
    using h C4_not_built_fails_before_any_effect [OF h, of "''class A {}''" None]
    by (simp add: sys_empty_def)
qed









text \<open>
  C6, as the code has it. When the child exits with code zero and \<open>JSON.parse\<close>
  rejects its output, the call rejects with an error whose message is
  \<open>Failed to parse analysis result:\<close> followed by the engine's description of the
  syntax error. The output itself is not put into the error.
\<close>

theorem C6_parse_failure_reports_the_parser_error:
  assumes "isRoslynAvailable e s"
    and "isFilePath fileName \<or> writeFile_error e = None"
    and "outcome e = Exited (Some 0) out err"
    and "JSON_parse out = None"
  shows "\<exists>x. fst (analyzeCode e s code fileName) = Inl x \<and>
             error_message x = ''Failed to parse analysis result: '' @ syntax_error_text e out"
  using fst_analyzeCode_exit0 [OF assms(1-3)] assms(4) by simp

theorem C6_witness:
  "isRoslynAvailable env_bad_output sys_built \<and>
   outcome env_bad_output = Exited (Some 0) ''['' [] \<and>
   JSON_parse ''['' = None \<and>
   (\<exists>x. fst (analyzeCode env_bad_output sys_built ''class A {}'' None) = Inl x \<and>
        error_message x =
          ''Failed to parse analysis result: SyntaxError: Unexpected end of JSON input'')"
proof -
  have a: "isRoslynAvailable env_bad_output sys_built"
    by code_simp
  have b: "isFilePath None \<or> writeFile_error env_bad_output = None"
    by (simp add: env_bad_output_def env_ok_def)
  have c: "outcome env_bad_output = Exited (Some 0) ''['' []"
    by (simp add: env_bad_output_def)
  have d: "JSON_parse ''['' = None"
    by code_simp
  have t: "syntax_error_text env_bad_output ''['' = ''SyntaxError: Unexpected end of JSON input''"
    by (simp add: env_bad_output_def env_ok_def)
  show ?thesis
    using a c d C6_parse_failure_reports_the_parser_error [OF a b c d, of "''class A {}''"]
    by (simp add: t)
qed

text \<open>
  C6 as stated fails: for the output \<open>[\<close> the error is the fixed message below, in
  which the output does not occur.
\<close>

theorem C6_counterexample:
  "outcome env_bad_output = Exited (Some 0) ''['' [] \<and>
   fst (analyzeCode env_bad_output sys_built ''class A {}'' None) =
     Inl (ParseFailed ''SyntaxError: Unexpected end of JSON input'') \<and>
   error_message (ParseFailed ''SyntaxError: Unexpected end of JSON input'') =
     ''Failed to parse analysis result: SyntaxError: Unexpected end of JSON input'' \<and>
   \<not> contains ''Failed to parse analysis result: SyntaxError: Unexpected end of JSON input'' ''[''"
  by code_simp

text \<open>
  C10. When the child exits with code zero and its output is a JSON text, the call
  resolves with the parsed value, whatever its shape. The texts \<open>null\<close> and \<open>{}\<close> are
  JSON texts whose values do not have the shape of an \<open>AnalysisResult\<close>.
\<close>

theorem C10_any_json_value_is_returned:
  assumes "isRoslynAvailable e s"
    and "isFilePath fileName \<or> writeFile_error e = None"
    and "outcome e = Exited (Some 0) out err"
    and "JSON_parse out = Some v"
  shows "fst (analyzeCode e s code fileName) = Inr v \<and>
         JSON_parse ''null'' = Some JNull \<and> as_AnalysisResult JNull = None \<and>
         JSON_parse ''{}'' = Some (JObject []) \<and> as_AnalysisResult (JObject []) = None"
proof -
  have "fst (analyzeCode e s code fileName) = Inr v"
    using fst_analyzeCode_exit0 [OF assms(1-3)] assms(4) by simp
  moreover have "JSON_parse ''null'' = Some JNull \<and> as_AnalysisResult JNull = None"
    by code_simp
  moreover have "JSON_parse ''{}'' = Some (JObject []) \<and> as_AnalysisResult (JObject []) = None"
    by code_simp
  ultimately show ?thesis by simp
qed

theorem C10_witness:
  "isRoslynAvailable env_ok sys_built \<and>
   outcome env_ok = Exited (Some 0) ''null'' [] \<and>
   JSON_parse ''null'' = Some JNull \<and>
   fst (analyzeCode env_ok sys_built ''class A {}'' None) = Inr JNull \<and>
   as_AnalysisResult JNull = None \<and>
   outcome env_empty_object = Exited (Some 0) ''{}'' [] \<and>
   fst (analyzeCode env_empty_object sys_built ''class A {}'' None) = Inr (JObject []) \<and>
   as_AnalysisResult (JObject []) = None"
proof -
  have a: "isRoslynAvailable env_ok sys_built"
    by (rule isRoslynAvailable_env_ok)
  have b: "isFilePath None \<or> writeFile_error env_ok = None"
    by (simp add: env_ok_def)
  have c: "outcome env_ok = Exited (Some 0) ''null'' []"
    by (simp add: env_ok_def)
  have d: "JSON_parse ''null'' = Some JNull"
    by code_simp
  have a': "isRoslynAvailable env_empty_object sys_built"
    by code_simp
  have b': "isFilePath None \<or> writeFile_error env_empty_object = None"
    by (simp add: env_empty_object_def env_ok_def)
  have c': "outcome env_empty_object = Exited (Some 0) ''{}'' []"
    by (simp add: env_empty_object_def)
  have d': "JSON_parse ''{}'' = Some (JObject [])"
    by code_simp
  show ?thesis
    using a c d c'
      C10_any_json_value_is_returned [OF a b c d, of "''class A {}''"]
      C10_any_json_value_is_returned [OF a' b' c' d', of "''class A {}''"]
    by simp
qed

section \<open>Properties of the analyzer\<close>

lemma length_filter_concat_map:
  "length (filter P (concat (map f xs))) = sum_list (map (\<lambda>x. length (filter P (f x))) xs)"
  by (induction xs) auto

lemma count_in_DescendantNodesAndSelf:
  "length (filter P (DescendantNodesAndSelf n)) = count_in P n"
proof (induction n)
  case (SyntaxNode k t i m l cs)
  have "sum_list (map (\<lambda>x. length (filter P (DescendantNodesAndSelf x))) cs) =
        sum_list (map (count_in P) cs)"
    using SyntaxNode.IH by (intro arg_cong [where f = sum_list] map_cong) auto
  then show ?case
    by (simp add: length_filter_concat_map)
qed

lemma count_below_DescendantNodes:
  "length (filter P (DescendantNodes n)) = count_below P n"
  by (simp add: DescendantNodes_def count_below_def length_filter_concat_map
      count_in_DescendantNodesAndSelf)

lemma decision_counts_add_up:
  "Count (OfType IfStatementSyntax xs) + Count (OfType WhileStatementSyntax xs)
   + Count (OfType ForStatementSyntax xs) + Count (OfType ForEachStatementSyntax xs)
   + Count (OfType CaseSwitchLabelSyntax xs) + Count (OfType CatchClauseSyntax xs)
   + Count (OfType ConditionalExpressionSyntax xs) = int (length (filter spec_decision_node xs))"
  by (induction xs) (auto simp: Count_def OfType_def spec_decision_node_def)

lemma logical_count:
  "Count (filter isLogicalAndOr (filter isBinaryExpression xs)) =
     int (length (filter spec_short_circuit xs))"
  by (induction xs)
    (auto simp: Count_def isLogicalAndOr_def isBinaryExpression_def spec_short_circuit_def)

lemma complexity_by_filters:
  "CalculateCyclomaticComplexity n =
     1 + int (length (filter spec_decision_node (DescendantNodes n)))
       + int (length (filter spec_short_circuit (DescendantNodes n)))"
  unfolding CalculateCyclomaticComplexity_def
  using decision_counts_add_up [of "DescendantNodes n"] logical_count [of "DescendantNodes n"]
  by linarith

lemma filter_none: "list_all (\<lambda>x. \<not> P x) xs \<Longrightarrow> filter P xs = []"
  by (induction xs) auto

text \<open>
  C5. The complexity the metrics calculator returns is one plus the number of \<open>if\<close>,
  \<open>while\<close>, \<open>for\<close>, \<open>foreach\<close>, case-label, \<open>catch\<close> and conditional nodes below the
  root plus the number of logical-and and logical-or expressions below it. A unit with
  none of them has complexity one, and the unit with one class, one method and two
  \<open>if\<close> statements has classes 1, methods 1 and complexity 3.
\<close>

theorem C5_complexity_is_one_plus_decision_points:
  "CyclomaticComplexity (CalculateMetrics n) = int (spec_complexity n) \<and>
   (list_all (\<lambda>x. \<not> spec_decision_node x \<and> \<not> spec_short_circuit x) (DescendantNodes n) \<longrightarrow>
      CyclomaticComplexity (CalculateMetrics n) = 1) \<and>
   Classes (CalculateMetrics tree_two_ifs) = 1 \<and>
   Methods (CalculateMetrics tree_two_ifs) = 1 \<and>
   CyclomaticComplexity (CalculateMetrics tree_two_ifs) = 3"
proof -
  have general: "CyclomaticComplexity (CalculateMetrics n) = int (spec_complexity n)"
    by (simp add: CalculateMetrics_def complexity_by_filters spec_complexity_def
        count_below_DescendantNodes)
  have none: "CyclomaticComplexity (CalculateMetrics n) = 1"
    if "list_all (\<lambda>x. \<not> spec_decision_node x \<and> \<not> spec_short_circuit x) (DescendantNodes n)"
  proof -
    from that have "list_all (\<lambda>x. \<not> spec_decision_node x) (DescendantNodes n)"
      and "list_all (\<lambda>x. \<not> spec_short_circuit x) (DescendantNodes n)"
      by (simp_all add: list_all_iff)
    then show ?thesis
      by (simp add: CalculateMetrics_def complexity_by_filters filter_none)
  qed
  have sample: "Classes (CalculateMetrics tree_two_ifs) = 1 \<and>
      Methods (CalculateMetrics tree_two_ifs) = 1 \<and>
      CyclomaticComplexity (CalculateMetrics tree_two_ifs) = 3"
    by code_simp
  from general none sample show ?thesis by blast
qed

theorem C5_witness:
  "list_all (\<lambda>x. \<not> spec_decision_node x \<and> \<not> spec_short_circuit x)
     (DescendantNodes tree_empty_class) \<and>
   CyclomaticComplexity (CalculateMetrics tree_empty_class) = 1 \<and>
   spec_complexity tree_empty_class = 1"
proof -
  have h: "list_all (\<lambda>x. \<not> spec_decision_node x \<and> \<not> spec_short_circuit x)
     (DescendantNodes tree_empty_class)"
    by code_simp
  have s: "spec_complexity tree_empty_class = 1"
    by code_simp
  show ?thesis
    using h s C5_complexity_is_one_plus_decision_points [of tree_empty_class] by simp
qed

text \<open>
  C7. The claim says that a variable whose initializer contains \<open>.Where(\<close> and ends in
  \<open>.ToList()\<close> gets no suggestion from the deferred-query rule. The code gives one:
  for \<open>var q = xs.Where(x => x > 0).ToList();\<close> the condition holds and the
  performance suggestions are the message about \<open>q\<close>.
\<close>

theorem C7_materialized_query_is_flagged:
  "isDeferredQuery ''xs.Where(x => x > 0).ToList()'' \<and>
   GeneratePerformanceSuggestions tree_materialized_query =
     [''PERFORMANCE: Variable 'q' holds a deferred LINQ query. Consider materializing with ToList()/ToArray() if enumerated multiple times.'']"
  by code_simp

text \<open>
  C8. The claim, like the project's guide, has a string literal flagged that is assigned
  to a declarator whose identifier contains \<open>password\<close>. The code does not flag it: in
  the guide's own example the declarator \<open>password\<close> has a sensitive name, but the
  parent of its literal is the initializer clause, not the declarator, so the scan for
  hardcoded secrets adds nothing and the security suggestions are the SQL message alone.
\<close>

theorem C8_declared_secret_is_not_flagged:
  "map (\<lambda>d. (Identifier d, sensitiveVarName d))
     (OfType VariableDeclaratorSyntax (DescendantNodes tree_user_service)) =
     [(''password'', True), (''query'', False)] \<and>
   map (\<lambda>pl. Class (fst pl)) (literals_with_parent tree_user_service) =
     [EqualsValueClauseSyntax, BinaryExpressionSyntax AddExpression,
      BinaryExpressionSyntax AddExpression] \<and>
   hardcoded_secret_suggestions tree_user_service = [] \<and>
   GenerateSecuritySuggestions tree_user_service =
     [''SECURITY: Potential SQL injection risk detected. Use parameterized queries instead of string concatenation.'']"
  by code_simp

text \<open>
  C9. The suggestions of the result are the basic suggestions, then the security, the
  performance and the LINQ suggestions, each group in its own order, nothing removed.
\<close>

theorem C9_suggestions_in_category_order:
  "Suggestions (AnalyzeCode roslyn code fileName) =
     GenerateSuggestions (fst (roslyn code fileName)) (snd (roslyn code fileName))
     @ GenerateSecuritySuggestions (fst (roslyn code fileName))
     @ GeneratePerformanceSuggestions (fst (roslyn code fileName))
     @ GenerateLinqSuggestions (fst (roslyn code fileName))"
  by (simp add: AnalyzeCode_def AddRange_def Let_def split: prod.splits)

section \<open>The wire format round trip\<close>

lemma consP_Some [simp]: "consP x (Some (xs, r)) = Some (x # xs, r)"
  by (simp add: consP_def)

lemma hex_val_hex_digit: "d < 16 \<Longrightarrow> hex_val (hex_digit d) = Some d"
  by (auto simp: hex_val_def hex_digit_def Let_def)

lemma hex4_unicode_escape:
  "hex4 (CHR ''0'') (CHR ''0'') (hex_digit ((of_char c :: nat) div 16))
     (hex_digit ((of_char c :: nat) mod 16)) = Some (of_char c)"
proof -
  have "(of_char c :: nat) < 256" by simp
  then have a: "(of_char c :: nat) div 16 < 16" by presburger
  have b: "(of_char c :: nat) mod 16 < 16" by simp
  have z: "hex_val (CHR ''0'') = Some 0" by (simp add: hex_val_def)
  show ?thesis
    by (simp add: hex4_def z hex_val_hex_digit [OF a] hex_val_hex_digit [OF b])
qed

lemma parse_chars_unicode_escape:
  "parse_chars (unicode_escape c @ s) = consP (of_char c) (parse_chars s)"
  by (simp add: unicode_escape_def hex4_unicode_escape)

lemma parse_chars_escape_char:
  "parse_chars (escape_char c @ s) = consP (of_char c) (parse_chars s)"
proof -
  consider (bs) "c = CHR 0x5C" | (b) "c = CHR 0x08" | (t) "c = CHR 0x09" | (n) "c = CHR 0x0A"
    | (f) "c = CHR 0x0C" | (r) "c = CHR 0x0D"
    | (u) "c \<noteq> CHR 0x5C" "c \<noteq> CHR 0x08" "c \<noteq> CHR 0x09" "c \<noteq> CHR 0x0A" "c \<noteq> CHR 0x0C"
          "c \<noteq> CHR 0x0D" "(of_char c :: nat) < 0x20 \<or> 0x7F \<le> (of_char c :: nat) \<or> html_sensitive c"
    | (raw) "c \<noteq> CHR 0x5C" "\<not> (of_char c :: nat) < 0x20" "\<not> html_sensitive c"
          "c \<noteq> CHR 0x08" "c \<noteq> CHR 0x09" "c \<noteq> CHR 0x0A" "c \<noteq> CHR 0x0C" "c \<noteq> CHR 0x0D"
          "\<not> 0x7F \<le> (of_char c :: nat)"
    by blast
  then show ?thesis
  proof cases
    case u
    then show ?thesis
      by (simp add: escape_char_def parse_chars_unicode_escape)
  next
    case raw
    then have "c \<noteq> CHR 0x22" by (auto simp: html_sensitive_def)
    with raw show ?thesis
      by (simp add: escape_char_def)
  qed (simp_all add: escape_char_def unescape_def)
qed

lemma parse_chars_escaped:
  "parse_chars (concat (map escape_char s) @ CHR 0x22 # rest) = Some (js_string s, rest)"
  by (induction s) (simp_all add: js_string_def parse_chars_escape_char)

lemma parse_chars_write_string:
  "parse_chars (tl (write_string s) @ rest) = Some (js_string s, rest)"
  using parse_chars_escaped [of s rest] by (simp add: write_string_def)

lemma write_string_Cons: "write_string s = CHR 0x22 # tl (write_string s)"
  by (simp add: write_string_def)

lemma is_digit_digit_char: "d < 10 \<Longrightarrow> is_digit (digit_char d)"
  by (simp add: is_digit_def digit_char_def)

lemma digit_val_digit_char: "d < 10 \<Longrightarrow> digit_val (digit_char d) = d"
  by (simp add: digit_val_def digit_char_def)

lemma string_of_nat_digits: "list_all is_digit (string_of_nat n)"
proof (induction n rule: string_of_nat.induct)
  case (1 n)
  show ?case
  proof (cases "n < 10")
    case True
    then show ?thesis
      by (subst string_of_nat.simps) (simp add: is_digit_digit_char)
  next
    case False
    with 1 show ?thesis
      by (subst string_of_nat.simps) (simp add: is_digit_digit_char)
  qed
qed

lemma string_of_nat_not_Nil: "string_of_nat n \<noteq> []"
  by (subst string_of_nat.simps) simp

lemma nat_of_digits_snoc: "nat_of_digits (xs @ [c]) = 10 * nat_of_digits xs + digit_val c"
  by (simp add: nat_of_digits_def)

lemma nat_of_digits_string_of_nat: "nat_of_digits (string_of_nat n) = n"
proof (induction n rule: string_of_nat.induct)
  case (1 n)
  show ?case
  proof (cases "n < 10")
    case True
    then show ?thesis
      by (subst string_of_nat.simps) (simp add: nat_of_digits_def digit_val_digit_char)
  next
    case False
    with 1 show ?thesis
      by (subst string_of_nat.simps) (simp add: nat_of_digits_snoc digit_val_digit_char)
  qed
qed

lemma digit_char_0: "digit_char 0 = CHR ''0''"
  by code_simp

lemma digit_char_eq_zero: "d < 10 \<Longrightarrow> digit_char d = CHR ''0'' \<longleftrightarrow> d = 0"
proof -
  assume "d < 10"
  then have "digit_val (digit_char d) = d" by (rule digit_val_digit_char)
  moreover have "digit_val (CHR ''0'') = 0" by (simp add: digit_val_def)
  moreover have "digit_char 0 = CHR ''0''" by (rule digit_char_0)
  ultimately show ?thesis by metis
qed

lemma hd_string_of_nat: "n \<noteq> 0 \<Longrightarrow> hd (string_of_nat n) \<noteq> CHR ''0''"
proof (induction n rule: string_of_nat.induct)
  case (1 n)
  show ?case
  proof (cases "n < 10")
    case True
    with 1(2) show ?thesis
      by (subst string_of_nat.simps) (simp add: digit_char_eq_zero)
  next
    case False
    then have "n div 10 \<noteq> 0" by simp
    with 1(1) False have "hd (string_of_nat (n div 10)) \<noteq> CHR ''0''" by simp
    with False show ?thesis
      by (subst string_of_nat.simps) (simp add: string_of_nat_not_Nil)
  qed
qed

lemma string_of_nat_0: "string_of_nat 0 = ''0''"
  by (subst string_of_nat.simps) (simp add: digit_char_0)

lemma takeWhile_all_then_stop:
  "list_all P xs \<Longrightarrow> (case rest of [] \<Rightarrow> True | c # _ \<Rightarrow> \<not> P c) \<Longrightarrow>
     takeWhile P (xs @ rest) = xs \<and> dropWhile P (xs @ rest) = rest"
  by (induction xs) (auto split: list.splits)

lemma parse_int_part_string_of_nat:
  assumes "case rest of [] \<Rightarrow> True | c # _ \<Rightarrow> \<not> is_digit c"
  shows "parse_int_part (string_of_nat n @ rest) = Some (n, rest)"
proof (cases "n = 0")
  case True
  then show ?thesis
    by (simp add: string_of_nat_0 parse_int_part_def)
next
  case False
  obtain c cs where s: "string_of_nat n = c # cs"
    using string_of_nat_not_Nil [of n] by (cases "string_of_nat n") auto
  have c0: "c \<noteq> CHR ''0''"
    using hd_string_of_nat [OF False] s by simp
  have ds: "is_digit c" "list_all is_digit cs"
    using string_of_nat_digits [of n] s by simp_all
  have tw: "takeWhile is_digit (cs @ rest) = cs" "dropWhile is_digit (cs @ rest) = rest"
    using takeWhile_all_then_stop [OF ds(2) assms] by simp_all
  have "nat_of_digits (c # cs) = n"
    using nat_of_digits_string_of_nat [of n] s by simp
  then show ?thesis
    by (simp add: s parse_int_part_def c0 ds tw)
qed

lemma number_end_no_digit:
  "number_end rest \<Longrightarrow> (case rest of [] \<Rightarrow> True | c # _ \<Rightarrow> \<not> is_digit c)"
  by (simp add: number_end_def split: list.splits)

lemma parse_frac_number_end: "number_end rest \<Longrightarrow> parse_frac rest = Some (0, rest)"
  by (simp add: number_end_def parse_frac_def split: list.splits)

lemma parse_exp_number_end: "number_end rest \<Longrightarrow> parse_exp rest = Some (0, rest)"
  by (simp add: number_end_def parse_exp_def split: list.splits)

lemma hd_string_of_nat_digit: "is_digit (hd (string_of_nat n))"
  using string_of_nat_digits [of n] string_of_nat_not_Nil [of n]
  by (cases "string_of_nat n") simp_all

lemma parse_sign_string_of_nat:
  "parse_sign (string_of_nat n @ rest) = (False, string_of_nat n @ rest)"
proof -
  obtain c cs where s: "string_of_nat n = c # cs"
    using string_of_nat_not_Nil [of n] by (cases "string_of_nat n") auto
  have "is_digit c" using hd_string_of_nat_digit [of n] s by simp
  then have "c \<noteq> CHR ''-''" by (auto simp: is_digit_def)
  then show ?thesis by (simp add: s parse_sign_def)
qed

lemma parse_number_string_of_int:
  assumes "number_end rest"
  shows "parse_number (string_of_int i @ rest) = Some (of_int i, rest)"
proof (cases "i < 0")
  case True
  then have "parse_number (string_of_int i @ rest) =
      Some (- 1 * (of_nat (nat (- i)) + 0) * scale10 0, rest)"
    by (simp add: string_of_int_def parse_number_def parse_sign_def
        parse_int_part_string_of_nat [OF number_end_no_digit [OF assms]]
        parse_frac_number_end [OF assms] parse_exp_number_end [OF assms])
  with True show ?thesis by (simp add: scale10_def)
next
  case False
  then have "parse_number (string_of_int i @ rest) =
      Some (1 * (of_nat (nat i) + 0) * scale10 0, rest)"
    by (simp add: string_of_int_def parse_number_def parse_sign_string_of_nat
        parse_int_part_string_of_nat [OF number_end_no_digit [OF assms]]
        parse_frac_number_end [OF assms] parse_exp_number_end [OF assms])
  with False show ?thesis by (simp add: scale10_def)
qed

lemma skip_ws_ws: "list_all is_ws w \<Longrightarrow> skip_ws (w @ s) = skip_ws s"
  by (induction w) (simp_all add: skip_ws_def)

lemma skip_ws_start: "\<not> is_ws c \<Longrightarrow> skip_ws (c # s) = c # s"
  by (simp add: skip_ws_def)

lemma indent_ws: "list_all is_ws (indent k)"
  by (simp add: indent_def is_ws_def list_all_iff)

lemma NewLine_ws: "list_all is_ws (NewLine p)"
  by (cases p) (simp_all add: NewLine_def is_ws_def)

lemma is_digit_not_ws: "is_digit c \<Longrightarrow> \<not> is_ws c"
  by (auto simp: is_digit_def is_ws_def)

lemma number_end_ws: "list_all is_ws w \<Longrightarrow> number_end t \<Longrightarrow> number_end (w @ t)"
  by (cases w) (auto simp: number_end_def is_ws_def is_digit_def)

lemma number_end_punct:
  "number_end (CHR '','' # t)" "number_end (CHR '']'' # t)" "number_end (CHR ''}'' # t)"
  by (simp_all add: number_end_def is_digit_def)

text \<open>Every written value starts with a character that opens a value.\<close>

lemma string_of_int_start:
  "\<exists>c t. string_of_int i = c # t \<and> (c = CHR ''-'' \<or> is_digit c)"
proof (cases "i < 0")
  case True
  then show ?thesis by (simp add: string_of_int_def)
next
  case False
  obtain c cs where s: "string_of_nat (nat i) = c # cs"
    using string_of_nat_not_Nil [of "nat i"] by (cases "string_of_nat (nat i)") auto
  have "is_digit c" using hd_string_of_nat_digit [of "nat i"] s by simp
  with False s show ?thesis by (simp add: string_of_int_def)
qed

lemma write_value_start:
  "\<exists>c t. write_value nl k d = c # t \<and> \<not> is_ws c \<and> c \<noteq> CHR '']'' \<and> c \<noteq> CHR ''}''"
proof (cases d)
  case WNull
  then show ?thesis by (simp add: is_ws_def)
next
  case (WNumber i)
  obtain c t where "string_of_int i = c # t" "c = CHR ''-'' \<or> is_digit c"
    using string_of_int_start [of i] by blast
  with WNumber show ?thesis
    by (auto simp: is_ws_def is_digit_def)
next
  case (WString s)
  then show ?thesis by (simp add: write_string_def is_ws_def)
next
  case (WArray xs)
  then show ?thesis by (cases xs) (simp_all add: is_ws_def)
next
  case (WObject ms)
  then show ?thesis by (cases ms) (simp_all add: is_ws_def)
qed

lemma write_elements_start:
  "xs \<noteq> [] \<Longrightarrow>
   \<exists>c t. write_elements nl k xs = c # t \<and> \<not> is_ws c \<and> c \<noteq> CHR '']'' \<and> c \<noteq> CHR ''}''"
proof (cases xs)
  case Nil
  assume "xs \<noteq> []"
  with Nil show ?thesis by simp
next
  case (Cons x ys)
  obtain c t where "write_value nl k x = c # t" "\<not> is_ws c" "c \<noteq> CHR '']''" "c \<noteq> CHR ''}''"
    using write_value_start [of nl k x] by blast
  with Cons show ?thesis by (cases ys) simp_all
qed

lemma write_members_start:
  "ms \<noteq> [] \<Longrightarrow> \<exists>t. write_members nl k ms = CHR 0x22 # t"
proof (cases ms)
  case Nil
  assume "ms \<noteq> []"
  with Nil show ?thesis by simp
next
  case (Cons m ys)
  obtain name v where "m = (name, v)" by (cases m)
  with Cons show ?thesis by (cases ys) (simp_all add: write_string_def)
qed

lemma skip_to_elements:
  assumes "list_all is_ws nl" "xs \<noteq> []"
  shows "skip_ws (nl @ indent k @ write_elements nl j xs @ t) = write_elements nl j xs @ t"
proof -
  obtain c u where "write_elements nl j xs = c # u" "\<not> is_ws c"
    using write_elements_start [OF assms(2), of nl j] by blast
  then show ?thesis
    using skip_ws_ws [OF assms(1)] skip_ws_ws [OF indent_ws] by (simp add: skip_ws_start)
qed

lemma skip_to_members:
  assumes "list_all is_ws nl" "ms \<noteq> []"
  shows "skip_ws (nl @ indent k @ write_members nl j ms @ t) = write_members nl j ms @ t"
proof -
  obtain u where "write_members nl j ms = CHR 0x22 # u"
    using write_members_start [OF assms(2), of nl j] by blast
  moreover have "\<not> is_ws (CHR 0x22)" by (simp add: is_ws_def)
  ultimately show ?thesis
    using skip_ws_ws [OF assms(1)] skip_ws_ws [OF indent_ws] by (simp add: skip_ws_start)
qed

lemma skip_to_punct:
  assumes "list_all is_ws nl" "\<not> is_ws c"
  shows "skip_ws (nl @ indent k @ c # t) = c # t"
  using skip_ws_ws [OF assms(1)] skip_ws_ws [OF indent_ws] assms(2) by (simp add: skip_ws_start)

lemma skip_to_value:
  "skip_ws (CHR '' '' # write_value nl k d @ t) = write_value nl k d @ t"
proof -
  obtain c u where "write_value nl k d = c # u" "\<not> is_ws c"
    using write_value_start [of nl k d] by blast
  then show ?thesis by (simp add: skip_ws_def is_ws_def)
qed

text \<open>The three scalar cases.\<close>

lemma parse_value_null:
  "parse_value (Suc n) (''null'' @ rest) = Some (JNull, rest)"
  by (simp add: startsWith_def)

lemma parse_value_number:
  assumes "number_end rest"
  shows "parse_value (Suc n) (string_of_int i @ rest) = Some (JNumber (of_int i), rest)"
proof -
  obtain c t where s: "string_of_int i = c # t" and c: "c = CHR ''-'' \<or> is_digit c"
    using string_of_int_start [of i] by blast
  have ne: "c \<noteq> CHR ''{''" "c \<noteq> CHR ''[''" "c \<noteq> CHR 0x22" "c \<noteq> CHR ''n''" "c \<noteq> CHR ''t''"
    "c \<noteq> CHR ''f''"
    using c by (auto simp: is_digit_def)
  have "parse_value (Suc n) (c # t @ rest) =
          (case parse_number (c # t @ rest) of None \<Rightarrow> None | Some (q, r) \<Rightarrow> Some (JNumber q, r))"
    using ne by (simp add: startsWith_def)
  moreover have "parse_number (c # t @ rest) = Some (of_int i, rest)"
    using parse_number_string_of_int [OF assms, of i] s by simp
  ultimately show ?thesis by (simp add: s)
qed

lemma parse_value_string:
  "parse_value (Suc n) (write_string s @ rest) = Some (JString (js_string s), rest)"
proof -
  have "parse_value (Suc n) (CHR 0x22 # tl (write_string s) @ rest) =
          Some (JString (js_string s), rest)"
    by (simp add: parse_chars_write_string)
  then show ?thesis
    using write_string_Cons [of s] by (metis append_Cons)
qed

lemma parse_elements_written:
  assumes nl: "list_all is_ws nl"
    and IH: "\<And>x n k rest. x \<in> set xs \<Longrightarrow> fuel x \<le> n \<Longrightarrow> number_end rest \<Longrightarrow>
                parse_value n (write_value nl k x @ rest) = Some (json_of x, rest)"
    and "xs \<noteq> []"
    and "sum_list (map (\<lambda>x. 1 + fuel x) xs) \<le> n"
  shows "parse_elements n (write_elements nl j xs @ nl @ indent i @ CHR '']'' # rest) =
           Some (map json_of xs, rest)"
  using assms(2-)
proof (induction xs arbitrary: n)
  case Nil
  then show ?case by simp
next
  case (Cons y ys)
  from Cons.prems(3) obtain n' where n: "n = Suc n'" and fy: "fuel y \<le> n'"
    and fys: "sum_list (map (\<lambda>x. 1 + fuel x) ys) \<le> n'"
    by (cases n) auto
  have closing: "skip_ws (nl @ indent i @ CHR '']'' # rest) = CHR '']'' # rest"
    by (rule skip_to_punct [OF nl]) (simp add: is_ws_def)
  show ?case
  proof (cases ys)
    case Nil
    have "parse_value n' (write_value nl j y @ nl @ indent i @ CHR '']'' # rest) =
            Some (json_of y, nl @ indent i @ CHR '']'' # rest)"
      by (rule Cons.prems(1) [OF _ fy])
        (simp_all add: number_end_ws [OF nl] number_end_ws [OF indent_ws] number_end_punct)
    then show ?thesis
      by (simp add: n Nil closing)
  next
    case (Cons z zs)
    let ?tail = "write_elements nl j ys @ nl @ indent i @ CHR '']'' # rest"
    have v: "parse_value n' (write_value nl j y @ CHR '','' # nl @ indent j @ ?tail) =
            Some (json_of y, CHR '','' # nl @ indent j @ ?tail)"
      by (rule Cons.prems(1) [OF _ fy]) (simp_all add: number_end_punct)
    have comma: "skip_ws (CHR '','' # nl @ indent j @ ?tail) = CHR '','' # nl @ indent j @ ?tail"
      by (rule skip_ws_start) (simp add: is_ws_def)
    have next_el: "skip_ws (nl @ indent j @ ?tail) = ?tail"
      using skip_to_elements [OF nl, of ys j j "nl @ indent i @ CHR '']'' # rest"] Cons by simp
    have rest_ok: "parse_elements n' ?tail = Some (map json_of ys, rest)"
    proof (rule Cons.IH)
      show "parse_value n (write_value nl k x @ rest) = Some (json_of x, rest)"
        if "x \<in> set ys" "fuel x \<le> n" "number_end rest" for x n k rest
        using that by (intro Cons.prems(1)) simp_all
      show "ys \<noteq> []" using Cons by simp
      show "sum_list (map (\<lambda>x. 1 + fuel x) ys) \<le> n'" by (rule fys)
    qed
    have we: "write_elements nl j (y # ys) =
        write_value nl j y @ CHR '','' # nl @ indent j @ write_elements nl j ys"
      using Cons by simp
    show ?thesis
      using v by (simp add: n we comma next_el rest_ok)
  qed
qed

lemma parse_members_written:
  assumes nl: "list_all is_ws nl"
    and IH: "\<And>name x n k rest. (name, x) \<in> set ms \<Longrightarrow> fuel x \<le> n \<Longrightarrow> number_end rest \<Longrightarrow>
                parse_value n (write_value nl k x @ rest) = Some (json_of x, rest)"
    and "ms \<noteq> []"
    and "sum_list (map (\<lambda>(name, v). 1 + fuel v) ms) \<le> n"
  shows "parse_members n (write_members nl j ms @ nl @ indent i @ CHR ''}'' # rest) =
           Some (map (\<lambda>(name, v). (js_string name, json_of v)) ms, rest)"
  using assms(2-)
proof (induction ms arbitrary: n)
  case Nil
  then show ?case by simp
next
  case (Cons m ys)
  obtain name y where m: "m = (name, y)" by (cases m)
  from Cons.prems(3) m obtain n' where n: "n = Suc n'" and fy: "fuel y \<le> n'"
    and fys: "sum_list (map (\<lambda>(name, v). 1 + fuel v) ys) \<le> n'"
    by (cases n) auto
  have closing: "skip_ws (nl @ indent i @ CHR ''}'' # rest) = CHR ''}'' # rest"
    by (rule skip_to_punct [OF nl]) (simp add: is_ws_def)
  have key: "\<And>t. parse_chars (tl (write_string name) @ t) = Some (js_string name, t)"
    by (rule parse_chars_write_string)
  have colon: "\<And>t. skip_ws (CHR '':'' # t) = CHR '':'' # t"
    by (rule skip_ws_start) (simp add: is_ws_def)
  show ?case
  proof (cases ys)
    case Nil
    let ?after = "nl @ indent i @ CHR ''}'' # rest"
    have v: "parse_value n' (write_value nl j y @ ?after) = Some (json_of y, ?after)"
      by (rule Cons.prems(1) [of name y, OF _ fy])
        (simp_all add: m number_end_ws [OF nl] number_end_ws [OF indent_ws] number_end_punct)
    have pm: "parse_members (Suc n')
            (CHR 0x22 # tl (write_string name) @ CHR '':'' # CHR '' '' # write_value nl j y @ ?after) =
          Some ([(js_string name, json_of y)], rest)"
      using key [of "CHR '':'' # CHR '' '' # write_value nl j y @ ?after"]
      by (simp add: colon skip_to_value v closing)
    have wm: "write_members nl j (m # ys) @ ?after =
        CHR 0x22 # tl (write_string name) @ CHR '':'' # CHR '' '' # write_value nl j y @ ?after"
      using Nil m by (simp add: write_string_def)
    have res: "map (\<lambda>(name, v). (js_string name, json_of v)) (m # ys) =
        [(js_string name, json_of y)]"
      using Nil m by simp
    show ?thesis
      unfolding n wm res by (fact pm)
  next
    case (Cons z zs)
    let ?tail = "write_members nl j ys @ nl @ indent i @ CHR ''}'' # rest"
    let ?after = "CHR '','' # nl @ indent j @ ?tail"
    have v: "parse_value n' (write_value nl j y @ ?after) = Some (json_of y, ?after)"
      by (rule Cons.prems(1) [of name y, OF _ fy]) (simp_all add: m number_end_punct)
    have comma: "skip_ws ?after = ?after"
      by (rule skip_ws_start) (simp add: is_ws_def)
    have next_m: "skip_ws (nl @ indent j @ ?tail) = ?tail"
      using skip_to_members [OF nl, of ys j j "nl @ indent i @ CHR ''}'' # rest"] Cons by simp
    have rest_ok: "parse_members n' ?tail =
        Some (map (\<lambda>(name, v). (js_string name, json_of v)) ys, rest)"
    proof (rule Cons.IH)
      show "parse_value n (write_value nl k x @ rest) = Some (json_of x, rest)"
        if "(name, x) \<in> set ys" "fuel x \<le> n" "number_end rest" for name x n k rest
        using that by (intro Cons.prems(1) [of name x]) simp_all
      show "ys \<noteq> []" using Cons by simp
      show "sum_list (map (\<lambda>(name, v). 1 + fuel v) ys) \<le> n'" by (rule fys)
    qed
    have pm: "parse_members (Suc n')
            (CHR 0x22 # tl (write_string name) @ CHR '':'' # CHR '' '' # write_value nl j y @ ?after) =
          Some ((js_string name, json_of y) # map (\<lambda>(name, v). (js_string name, json_of v)) ys, rest)"
      using key [of "CHR '':'' # CHR '' '' # write_value nl j y @ ?after"]
      by (simp add: colon skip_to_value v comma next_m rest_ok)
    have wm: "write_members nl j (m # ys) @ nl @ indent i @ CHR ''}'' # rest =
        CHR 0x22 # tl (write_string name) @ CHR '':'' # CHR '' '' # write_value nl j y @ ?after"
      using Cons m by (simp add: write_string_def)
    have res: "map (\<lambda>(name, v). (js_string name, json_of v)) (m # ys) =
        (js_string name, json_of y) # map (\<lambda>(name, v). (js_string name, json_of v)) ys"
      using m by simp
    show ?thesis
      unfolding n wm res by (fact pm)
  qed
qed

lemma parse_value_array_nonempty:
  "skip_ws u = c # t \<Longrightarrow> c \<noteq> CHR '']'' \<Longrightarrow> parse_elements n (c # t) = Some (vs, r) \<Longrightarrow>
     parse_value (Suc n) (CHR ''['' # u) = Some (JArray vs, r)"
  by simp

lemma parse_value_object_nonempty:
  "skip_ws u = c # t \<Longrightarrow> c \<noteq> CHR ''}'' \<Longrightarrow> parse_members n (c # t) = Some (ms, r) \<Longrightarrow>
     parse_value (Suc n) (CHR ''{'' # u) = Some (JObject ms, r)"
  by simp

lemma parse_value_written:
  assumes nl: "list_all is_ws nl"
  shows "fuel d \<le> n \<Longrightarrow> number_end rest \<Longrightarrow>
         parse_value n (write_value nl k d @ rest) = Some (json_of d, rest)"
proof (induction d arbitrary: n k rest)
  case WNull
  then obtain n' where "n = Suc n'" by (cases n) auto
  then show ?case using parse_value_null [of n' rest] by simp
next
  case (WNumber i)
  then obtain n' where "n = Suc n'" by (cases n) auto
  then show ?case using parse_value_number [OF WNumber.prems(2), of n' i] by simp
next
  case (WString s)
  then obtain n' where "n = Suc n'" by (cases n) auto
  then show ?case using parse_value_string [of n' s rest] by simp
next
  case (WArray xs)
  from WArray.prems(1) obtain n' where n: "n = Suc n'"
    and f: "sum_list (map (\<lambda>x. 1 + fuel x) xs) \<le> n'"
    by (cases n) auto
  show ?case
  proof (cases xs)
    case Nil
    then show ?thesis by (simp add: n skip_ws_def is_ws_def)
  next
    case (Cons y ys)
    let ?tail = "write_elements nl (k + 2) xs @ nl @ indent k @ CHR '']'' # rest"
    have els: "parse_elements n' ?tail = Some (map json_of xs, rest)"
    proof (rule parse_elements_written [OF nl])
      show "parse_value n (write_value nl k x @ rest) = Some (json_of x, rest)"
        if "x \<in> set xs" "fuel x \<le> n" "number_end rest" for x n k rest
        using that by (rule WArray.IH)
      show "xs \<noteq> []" using Cons by simp
      show "sum_list (map (\<lambda>x. 1 + fuel x) xs) \<le> n'" by (rule f)
    qed
    obtain c t where start: "write_elements nl (k + 2) xs = c # t" "c \<noteq> CHR '']''"
      using write_elements_start [of xs nl "k + 2"] Cons by auto
    have skip: "skip_ws (nl @ indent (k + 2) @ ?tail) = ?tail"
      using skip_to_elements [OF nl, of xs "k + 2" "k + 2" "nl @ indent k @ CHR '']'' # rest"] Cons
      by simp
    have shape: "write_value nl k (WArray xs) @ rest = CHR ''['' # nl @ indent (k + 2) @ ?tail"
      using Cons by simp
    have "parse_value (Suc n') (CHR ''['' # nl @ indent (k + 2) @ ?tail) =
            Some (JArray (map json_of xs), rest)"
    proof (rule parse_value_array_nonempty)
      show "skip_ws (nl @ indent (k + 2) @ ?tail) = c # (t @ nl @ indent k @ CHR '']'' # rest)"
        using skip start by simp
      show "c \<noteq> CHR '']''" by (rule start(2))
      show "parse_elements n' (c # (t @ nl @ indent k @ CHR '']'' # rest)) =
              Some (map json_of xs, rest)"
        using els start by simp
    qed
    then show ?thesis
      unfolding n shape by simp
  qed
next
  case (WObject ms)
  from WObject.prems(1) obtain n' where n: "n = Suc n'"
    and f: "sum_list (map (\<lambda>(name, v). 1 + fuel v) ms) \<le> n'"
    by (cases n) auto
  show ?case
  proof (cases ms)
    case Nil
    then show ?thesis by (simp add: n skip_ws_def is_ws_def)
  next
    case (Cons y ys)
    let ?tail = "write_members nl (k + 2) ms @ nl @ indent k @ CHR ''}'' # rest"
    have mems: "parse_members n' ?tail =
        Some (map (\<lambda>(name, v). (js_string name, json_of v)) ms, rest)"
    proof (rule parse_members_written [OF nl])
      show "parse_value n (write_value nl k x @ rest) = Some (json_of x, rest)"
        if "(name, x) \<in> set ms" "fuel x \<le> n" "number_end rest" for name x n k rest
      proof (rule WObject.IH [OF that(1)])
        show "x \<in> Basic_BNFs.snds (name, x)" by simp
      qed (use that in simp_all)
      show "ms \<noteq> []" using Cons by simp
      show "sum_list (map (\<lambda>(name, v). 1 + fuel v) ms) \<le> n'" by (rule f)
    qed
    obtain t where start: "write_members nl (k + 2) ms = CHR 0x22 # t"
      using write_members_start [of ms nl "k + 2"] Cons by auto
    have skip: "skip_ws (nl @ indent (k + 2) @ ?tail) = ?tail"
      using skip_to_members [OF nl, of ms "k + 2" "k + 2" "nl @ indent k @ CHR ''}'' # rest"] Cons
      by simp
    have shape: "write_value nl k (WObject ms) @ rest = CHR ''{'' # nl @ indent (k + 2) @ ?tail"
      using Cons by simp
    have "parse_value (Suc n') (CHR ''{'' # nl @ indent (k + 2) @ ?tail) =
            Some (JObject (map (\<lambda>(name, v). (js_string name, json_of v)) ms), rest)"
    proof (rule parse_value_object_nonempty)
      show "skip_ws (nl @ indent (k + 2) @ ?tail) =
              CHR 0x22 # (t @ nl @ indent k @ CHR ''}'' # rest)"
        using skip start by simp
      show "CHR 0x22 \<noteq> CHR ''}''" by simp
      show "parse_members n' (CHR 0x22 # (t @ nl @ indent k @ CHR ''}'' # rest)) =
              Some (map (\<lambda>(name, v). (js_string name, json_of v)) ms, rest)"
        using mems start by simp
    qed
    then show ?thesis
      unfolding n shape by simp
  qed
qed

text \<open>The text of a document is at least as long as the fuel it needs.\<close>

lemma string_of_int_not_Nil: "string_of_int i \<noteq> []"
  by (simp add: string_of_int_def string_of_nat_not_Nil)

lemma fuel_le_length:
  "fuel d \<le> length (write_value nl k d)"
  "sum_list (map (\<lambda>x. 1 + fuel x) xs) \<le> length (write_elements nl k xs) + 1"
  "sum_list (map (\<lambda>(name, v). 1 + fuel v) ms) \<le> length (write_members nl k ms) + 1"
proof (induction nl k d and nl k xs and nl k ms
    rule: write_value_write_elements_write_members.induct)
  case (2 nl k i)
  then show ?case
    using string_of_int_not_Nil [of i] by (cases "string_of_int i") simp_all
qed (simp_all add: write_string_def)

lemma JSON_parse_written:
  assumes nl: "list_all is_ws nl"
  shows "JSON_parse (write_value nl 0 d @ nl) = Some (json_of d)"
proof -
  let ?s = "write_value nl 0 d @ nl"
  obtain c t where start: "write_value nl 0 d = c # t" "\<not> is_ws c"
    using write_value_start [of nl 0 d] by blast
  then have skip: "skip_ws ?s = ?s"
    by (simp add: skip_ws_start)
  have "fuel d \<le> length ?s"
    using fuel_le_length(1) [of d nl 0] by simp
  moreover have "number_end nl"
    using number_end_ws [OF nl, of "[]"] by (simp add: number_end_def)
  ultimately have "parse_value (length ?s) ?s = Some (json_of d, nl)"
    by (rule parse_value_written [OF nl])
  moreover have "skip_ws nl = []"
    using skip_ws_ws [OF nl, of "[]"] by (simp add: skip_ws_def)
  ultimately show ?thesis
    by (simp only: JSON_parse_def skip) simp
qed

lemma as_Location_written:
  "as_Location (json_of (doc_of_LocationInfo l)) = Some (ts_of_LocationInfo l)"
  by (simp add: as_Location_def doc_of_LocationInfo_def ts_of_LocationInfo_def get_number_def
      get_string_def js_get_def as_number_def as_string_def js_string_def)

lemma as_DiagnosticResult_written:
  "as_DiagnosticResult (json_of (doc_of_DiagnosticResult d)) = Some (ts_of_DiagnosticResult d)"
proof (cases "Location d")
  case None
  then show ?thesis
    by (simp add: as_DiagnosticResult_def doc_of_DiagnosticResult_def ts_of_DiagnosticResult_def
        as_optional_Location_def get_string_def js_get_def as_string_def js_string_def)
next
  case (Some l)
  have loc: "json_of (doc_of_LocationInfo l) \<noteq> JNull"
    by (simp add: doc_of_LocationInfo_def)
  have opt: "as_optional_Location (json_of (doc_of_DiagnosticResult d)) =
      Some (Some (ts_of_LocationInfo l))"
    using Some as_Location_written [of l] loc
    by (cases "json_of (doc_of_LocationInfo l)")
      (simp_all add: as_optional_Location_def doc_of_DiagnosticResult_def js_get_def js_string_def)
  show ?thesis
    using Some
    by (simp add: as_DiagnosticResult_def opt ts_of_DiagnosticResult_def)
      (simp add: doc_of_DiagnosticResult_def get_string_def js_get_def as_string_def js_string_def)
qed

lemma as_CodeMetrics_written:
  "as_CodeMetrics (json_of (doc_of_CodeMetrics m)) = Some (ts_of_CodeMetrics m)"
  by (simp add: as_CodeMetrics_def doc_of_CodeMetrics_def ts_of_CodeMetrics_def get_number_def
      js_get_def as_number_def js_string_def)

lemma those_diagnostics:
  "those (map as_DiagnosticResult (map json_of (map doc_of_DiagnosticResult ds))) =
     Some (map ts_of_DiagnosticResult ds)"
  by (induction ds) (simp_all add: as_DiagnosticResult_written)

lemma those_suggestions:
  "those (map as_string (map json_of (map WString ss))) = Some (map js_string ss)"
  by (induction ss) (simp_all add: as_string_def)

lemma as_AnalysisResult_written:
  "as_AnalysisResult (json_of (doc_of_AnalysisResult r)) = Some (ts_of_AnalysisResult r)"
proof -
  let ?j = "json_of (doc_of_AnalysisResult r)"
  have d: "get_array as_DiagnosticResult ?j ''diagnostics'' =
      Some (map ts_of_DiagnosticResult (Diagnostics r))"
    using those_diagnostics [of "Diagnostics r"]
    by (simp add: get_array_def as_array_def doc_of_AnalysisResult_def js_get_def js_string_def)
  have m: "js_get ?j ''metrics'' = Some (json_of (doc_of_CodeMetrics (Metrics r)))"
    by (simp add: doc_of_AnalysisResult_def js_get_def js_string_def)
  have s: "get_array as_string ?j ''suggestions'' = Some (map js_string (Suggestions r))"
    using those_suggestions [of "Suggestions r"]
    by (simp add: get_array_def as_array_def doc_of_AnalysisResult_def js_get_def js_string_def)
  show ?thesis
    by (simp add: as_AnalysisResult_def d m s as_CodeMetrics_written ts_of_AnalysisResult_def)
qed







lemma sample_result_round_trip:
  "map_option as_AnalysisResult (JSON_parse (Serialize Windows sample_result @ NewLine Windows)) =
     Some (Some (ts_of_AnalysisResult sample_result))"
  by code_simp

section \<open>The two programs together\<close>

lemma Main_usage: "Main p roslyn fs [] = (1, [], usage p)"
  by (simp add: Main_def)

lemma Main_stdout:
  "Main p roslyn fs (a # args) =
     (0,
      Serialize p (case fs a of
                     Some content \<Rightarrow> AnalyzeCode roslyn content a
                   | None \<Rightarrow> AnalyzeCode roslyn a ''snippet.cs'') @ NewLine p,
      [])"
  by (cases "fs a") (simp_all add: Main_def)

text \<open>
  When the child process is the analyzer and prints the result \<open>r\<close>, the orchestrator
  resolves with a value that, read through the TypeScript interfaces, is \<open>r\<close>.
\<close>

lemma analyzeCode_returns_what_Main_prints:
  assumes "isRoslynAvailable e s"
    and "isFilePath fileName \<or> writeFile_error e = None"
    and "outcome e = Exited (Some 0) (Serialize p r @ NewLine p) err"
  shows "\<exists>j. fst (analyzeCode e s code fileName) = Inr j \<and>
             as_AnalysisResult j = Some (ts_of_AnalysisResult r)"
  using fst_analyzeCode_exit0 [OF assms]
    JSON_parse_written [OF NewLine_ws, of p "doc_of_AnalysisResult r"]
  by (simp add: Serialize_def as_AnalysisResult_written)

end
